theory Spec2Isabelle
  imports Complex_Main
begin

section \<open>Conventions of the embedding\<close>

text \<open>
  The simulation engine (\<^verbatim>\<open>client.py\<close>, \<^verbatim>\<open>machine.py\<close>, \<^verbatim>\<open>truck.py\<close>,
  \<^verbatim>\<open>system.py\<close>) is embedded method by method.

  \<^item> Every object is a record; the \<^verbatim>\<open>state\<close> attribute of an entity, a Python string
    drawn from a fixed set, is a datatype, with the string it stands for given by a
    \<open>_str\<close> function where the code reads it as text.
  \<^item> Batch sizes, outcomes and priorities stay strings, because the code looks them up
    in dictionaries and rejects unknown ones; a dictionary is an association list read
    with \<open>map_of\<close>.
  \<^item> Quantities (stored output, loads, order quantity, payments) are Python floats,
    and a float is modelled by the rational it denotes. The methods that compute with
    them are embedded twice. Under its own name a method computes exactly; these
    definitions carry the properties of the control flow, of the order of a tick and
    of the frame of a command, which no rounding changes. With the suffix \<open>_d\<close> the
    same method rounds the result of every operation to a double; these definitions
    carry the accounting of the material. The helper \<^verbatim>\<open>quantize\<close> of \<^verbatim>\<open>get_state\<close>
    rounds in its one definition.
  \<^item> Counters and durations are integers. An attribute that may hold \<^verbatim>\<open>None\<close> is an
    \<open>option\<close>.
  \<^item> A method that mutates its object returns the object after the call beside its
    result; a method that may raise returns \<open>error + value\<close>, and the object it returns
    carries the assignments made before the exception.
  \<^item> References between objects (M2 to M1, the trucks to M2 and to the client) are
    names resolved in the \<open>system\<close> record that owns all five objects.
  \<^item> The values drawn from the random generator are arguments: \<open>rand_val\<close> for
    \<^verbatim>\<open>random.random()\<close> and the sampled outcome for \<^verbatim>\<open>random.choices\<close>.
\<close>

datatype error = ValueError | KeyError | TypeError

section \<open>Client\<close>

datatype client_state = C_idle | Order_placed | Wait_for_completion | Completed

record client =
  c_state :: client_state
  priority_distribution :: "(string \<times> rat) list"
  order_penalties :: "(string \<times> (int \<times> rat \<times> rat)) list"
  time_passed :: int
  order_quantity :: rat
  current_payment :: rat
  current_priority :: "string option"
  time_limit :: "int option"
  in_time_payment :: "rat option"
  out_of_time_payment :: "rat option"

definition default_priority_distribution :: "(string \<times> rat) list" where
  "default_priority_distribution = [(''low'', 4/10), (''medium'', 5/10), (''high'', 1/10)]"

definition default_order_penalties :: "(string \<times> (int \<times> rat \<times> rat)) list" where
  "default_order_penalties =
     [(''low'', (20, 5, 1)), (''medium'', (15, 10, 2)), (''high'', (10, 15, 1))]"

definition Client_init ::
  "(string \<times> rat) list \<Rightarrow> (string \<times> (int \<times> rat \<times> rat)) list \<Rightarrow> client" where
  "Client_init pd pen =
     \<lparr> c_state = C_idle, priority_distribution = pd, order_penalties = pen,
       time_passed = 0, order_quantity = 0, current_payment = 0,
       current_priority = None, time_limit = None,
       in_time_payment = None, out_of_time_payment = None \<rparr>"

text \<open>
  The loop of \<^verbatim>\<open>place_order\<close>: walk the distribution in its declared order, adding up the
  probabilities, and stop at the first priority whose cumulative probability reaches
  the draw. When none does, \<^verbatim>\<open>current_priority\<close> keeps the value it had.
\<close>

fun select_priority :: "(string \<times> rat) list \<Rightarrow> rat \<Rightarrow> rat \<Rightarrow> string option \<Rightarrow> string option" where
  "select_priority [] rand_val cumulative_prob cur = cur"
| "select_priority ((priority, prob) # rest) rand_val cumulative_prob cur =
     (if rand_val \<le> cumulative_prob + prob then Some priority
      else select_priority rest rand_val (cumulative_prob + prob) cur)"

definition place_order :: "rat \<Rightarrow> client \<Rightarrow> (error + string) \<times> client" where
  "place_order rand_val c =
     (if c_state c \<noteq> C_idle then (Inl ValueError, c)
      else
        let c1 = c\<lparr>current_priority :=
                    select_priority (priority_distribution c) rand_val 0 (current_priority c)\<rparr>
        in case current_priority c1 of
             None \<Rightarrow> (Inl KeyError, c1)
           | Some p \<Rightarrow>
               (case map_of (order_penalties c1) p of
                  None \<Rightarrow> (Inl KeyError, c1)
                | Some (deadline, itp, otp) \<Rightarrow>
                    (Inr p,
                     c1\<lparr>time_limit := Some deadline, in_time_payment := Some itp,
                        out_of_time_payment := Some otp,
                        c_state := Order_placed, time_passed := 0,
                        order_quantity := 0, current_payment := 0\<rparr>)))"

text \<open>
  \<^verbatim>\<open>quantity_shipped\<close> raises before it assigns anything. Comparing \<^verbatim>\<open>time_passed\<close>
  with a \<^verbatim>\<open>time_limit\<close> of \<^verbatim>\<open>None\<close>, or multiplying by a rate of \<^verbatim>\<open>None\<close>, is a
  \<^verbatim>\<open>TypeError\<close>.
\<close>

definition quantity_shipped :: "rat \<Rightarrow> client \<Rightarrow> (error + rat) \<times> client" where
  "quantity_shipped quantity c =
     (if c_state c \<notin> {Order_placed, Wait_for_completion} then (Inl ValueError, c)
      else if quantity \<le> 0 \<or> order_quantity c + quantity > 1 then (Inl ValueError, c)
      else
        case time_limit c of
          None \<Rightarrow> (Inl TypeError, c)
        | Some deadline \<Rightarrow>
            (case (if time_passed c \<le> deadline then in_time_payment c else out_of_time_payment c) of
               None \<Rightarrow> (Inl TypeError, c)
             | Some rate \<Rightarrow>
                 let payment = quantity * rate;
                     c1 = c\<lparr>order_quantity := order_quantity c + quantity,
                            current_payment := current_payment c + payment\<rparr>;
                     c2 = (if order_quantity c1 \<ge> 1 then c1\<lparr>c_state := Completed\<rparr>
                           else c1\<lparr>c_state := Wait_for_completion\<rparr>)
                 in (Inr payment, c2)))"

definition step_time :: "client \<Rightarrow> (error + bool) \<times> client" where
  "step_time c =
     (if c_state c \<in> {Order_placed, Wait_for_completion} then
        let c1 = c\<lparr>time_passed := time_passed c + 1\<rparr>
        in case time_limit c1 of
             None \<Rightarrow> (Inl TypeError, c1)
           | Some deadline \<Rightarrow> (Inr (time_passed c1 \<le> deadline), c1)
      else (Inr False, c))"

definition client_reset :: "client \<Rightarrow> client" where
  "client_reset c =
     c\<lparr>c_state := C_idle, time_passed := 0, order_quantity := 0, current_payment := 0,
       current_priority := None, time_limit := None,
       in_time_payment := None, out_of_time_payment := None\<rparr>"

section \<open>Machine\<close>

datatype machine_state = M_idle | Processing | Maintenance

fun machine_state_str :: "machine_state \<Rightarrow> string" where
  "machine_state_str M_idle = ''idle''"
| "machine_state_str Processing = ''processing''"
| "machine_state_str Maintenance = ''maintenance''"

datatype mref = M1 | M2

record machine =
  m_name :: string
  processing_times :: "(string \<times> int) list"
  success_probabilities :: "(string \<times> (string \<times> rat) list) list"
  maintenance_effect :: "(string \<times> (string \<times> rat) list) list"
  maintenance_time :: int
  maintenance_operator_cost :: int
  m_state :: machine_state
  current_batch_size :: "string option"
  m_time_remaining :: int
  stored_output :: rat
  source_machine :: "mref option"
  raw_material_consumed :: rat
  maintenance_active :: bool
  total_operator_time :: int

definition default_processing_times :: "(string \<times> int) list" where
  "default_processing_times = [(''full'', 3), (''half'', 2), (''third'', 1)]"

definition default_success_probabilities :: "(string \<times> (string \<times> rat) list) list" where
  "default_success_probabilities =
     [(''full'', [(''full'', 7/10), (''half'', 5/100), (''third'', 2/10), (''none'', 5/100)]),
      (''half'', [(''half'', 8/10), (''third'', 15/100), (''none'', 5/100)]),
      (''third'', [(''third'', 85/100), (''none'', 15/100)])]"

definition default_maintenance_effect :: "(string \<times> (string \<times> rat) list) list" where
  "default_maintenance_effect =
     [(''full'', [(''full'', 75/100), (''half'', 15/100), (''third'', 5/100), (''none'', 5/100)]),
      (''half'', [(''half'', 85/100), (''third'', 10/100), (''none'', 5/100)]),
      (''third'', [(''third'', 9/10), (''none'', 1/10)])]"

definition Machine_init :: "string \<Rightarrow> machine" where
  "Machine_init name =
     \<lparr> m_name = name,
       processing_times = default_processing_times,
       success_probabilities = default_success_probabilities,
       maintenance_effect = default_maintenance_effect,
       maintenance_time = 2, maintenance_operator_cost = 1,
       m_state = M_idle, current_batch_size = None, m_time_remaining = 0,
       stored_output = 0, source_machine = None, raw_material_consumed = 0,
       maintenance_active = False, total_operator_time = 0 \<rparr>"

text \<open>The literal \<^verbatim>\<open>{"full": 1.0, "half": 0.5, "third": 1/3}\<close> of both methods.\<close>

definition size_quantity :: "(string \<times> rat) list" where
  "size_quantity = [(''full'', 1), (''half'', 1/2), (''third'', 1/3)]"

definition retrieve_quantity :: "rat \<Rightarrow> machine \<Rightarrow> rat \<times> machine" where
  "retrieve_quantity max_quantity m =
     (let quantity = min max_quantity (stored_output m)
      in (quantity, m\<lparr>stored_output := stored_output m - quantity\<rparr>))"

definition request_maintenance :: "machine \<Rightarrow> bool \<times> machine" where
  "request_maintenance m =
     (if m_state m \<noteq> M_idle then (False, m)
      else (True, m\<lparr>m_state := Maintenance, m_time_remaining := maintenance_time m,
                     total_operator_time := total_operator_time m + maintenance_operator_cost m\<rparr>))"

text \<open>
  \<^verbatim>\<open>Machine.step\<close>. The argument \<open>outcome\<close> is the value \<^verbatim>\<open>random.choices\<close> returns,
  one of the keys of the table \<open>probabilities\<close>; it is read only when a batch completes.
  \<open>possible_outcomes\<close> lists the keys that table has for the machine's current batch.
\<close>

definition outcome_table :: "machine \<Rightarrow> (string \<times> (string \<times> rat) list) list" where
  "outcome_table m = (if maintenance_active m then maintenance_effect m else success_probabilities m)"

definition possible_outcomes :: "machine \<Rightarrow> string list" where
  "possible_outcomes m =
     (case current_batch_size m of
        None \<Rightarrow> []
      | Some b \<Rightarrow> (case map_of (outcome_table m) b of None \<Rightarrow> [] | Some probabilities \<Rightarrow> map fst probabilities))"

definition machine_step :: "string \<Rightarrow> machine \<Rightarrow> (error + bool) \<times> machine" where
  "machine_step outcome m =
     (if m_state m = Processing then
        let m1 = m\<lparr>m_time_remaining := m_time_remaining m - 1\<rparr>
        in if m_time_remaining m1 \<le> 0 then
             (case current_batch_size m1 of
                None \<Rightarrow> (Inl KeyError, m1)
              | Some b \<Rightarrow>
                  (case map_of (outcome_table m1) b of
                     None \<Rightarrow> (Inl KeyError, m1)
                   | Some probabilities \<Rightarrow>
                       if outcome \<noteq> ''none'' then
                         (case map_of size_quantity outcome of
                            None \<Rightarrow> (Inl KeyError, m1)
                          | Some output_quantity \<Rightarrow>
                              (Inr True,
                               m1\<lparr>stored_output := stored_output m1 + output_quantity,
                                  m_state := M_idle, current_batch_size := None\<rparr>))
                       else (Inr True, m1\<lparr>m_state := M_idle, current_batch_size := None\<rparr>)))
           else (Inr False, m1)
      else if m_state m = Maintenance then
        let m1 = m\<lparr>m_time_remaining := m_time_remaining m - 1\<rparr>
        in if m_time_remaining m1 \<le> 0 then
             (Inr True, m1\<lparr>maintenance_active := True, m_state := M_idle\<rparr>)
           else (Inr False, m1)
      else (Inr False, m))"

definition machine_reset :: "machine \<Rightarrow> machine" where
  "machine_reset m =
     m\<lparr>m_state := M_idle, current_batch_size := None, m_time_remaining := 0,
       stored_output := 0, raw_material_consumed := 0, maintenance_active := False,
       total_operator_time := 0\<rparr>"

section \<open>Truck\<close>

datatype truck_state = Available | Delivering

datatype tref = Small | Big

datatype cref = The_client

record truck =
  capacity :: rat
  time_to_deliver :: int
  t_name :: string
  t_state :: truck_state
  current_load :: rat
  t_time_remaining :: int
  t_client :: "cref option"
  t_source_machine :: "mref option"

definition Truck_init :: "rat \<Rightarrow> int \<Rightarrow> string \<Rightarrow> truck" where
  "Truck_init cap ttd name =
     \<lparr> capacity = cap, time_to_deliver = ttd, t_name = name,
       t_state = Available, current_load = 0, t_time_remaining = 0,
       t_client = None, t_source_machine = None \<rparr>"

definition truck_reset :: "truck \<Rightarrow> truck" where
  "truck_reset t = t\<lparr>t_state := Available, current_load := 0, t_time_remaining := 0\<rparr>"

section \<open>The objects of a System and the methods that follow a reference\<close>

record system =
  client :: client
  m1 :: machine
  m2 :: machine
  small_truck :: truck
  big_truck :: truck
  time :: int
  total_profit :: rat
  s_current_priority :: "string option"
  machines :: "mref list"
  trucks :: "tref list"
  current_enacted_strategy :: int

fun machine_of :: "mref \<Rightarrow> system \<Rightarrow> machine" where
  "machine_of M1 s = m1 s"
| "machine_of M2 s = m2 s"

fun put_machine :: "mref \<Rightarrow> machine \<Rightarrow> system \<Rightarrow> system" where
  "put_machine M1 m s = s\<lparr>m1 := m\<rparr>"
| "put_machine M2 m s = s\<lparr>m2 := m\<rparr>"

fun truck_of :: "tref \<Rightarrow> system \<Rightarrow> truck" where
  "truck_of Small s = small_truck s"
| "truck_of Big s = big_truck s"

fun put_truck :: "tref \<Rightarrow> truck \<Rightarrow> system \<Rightarrow> system" where
  "put_truck Small t s = s\<lparr>small_truck := t\<rparr>"
| "put_truck Big t s = s\<lparr>big_truck := t\<rparr>"

text \<open>
  The tail of \<^verbatim>\<open>request_processing\<close>: the three assignments under "Start processing".
  A batch size missing from \<^verbatim>\<open>processing_times\<close> raises after the first two.
\<close>

definition start_processing :: "mref \<Rightarrow> string \<Rightarrow> system \<Rightarrow> (error + bool) \<times> system" where
  "start_processing r batch_size s =
     (let m = (machine_of r s)\<lparr>m_state := Processing, current_batch_size := Some batch_size\<rparr>
      in case map_of (processing_times m) batch_size of
           None \<Rightarrow> (Inl KeyError, put_machine r m s)
         | Some t \<Rightarrow> (Inr True, put_machine r (m\<lparr>m_time_remaining := t\<rparr>) s))"

definition request_processing :: "mref \<Rightarrow> string \<Rightarrow> system \<Rightarrow> (error + bool) \<times> system" where
  "request_processing r batch_size s =
     (if m_state (machine_of r s) \<noteq> M_idle then (Inr False, s)
      else if batch_size \<notin> set [''full'', ''half'', ''third''] then (Inl ValueError, s)
      else
        case map_of size_quantity batch_size of
          None \<Rightarrow> (Inl KeyError, s)
        | Some raw_material_needed \<Rightarrow>
            (case source_machine (machine_of r s) of
               Some src \<Rightarrow>
                 let (available, src_m) = retrieve_quantity raw_material_needed (machine_of src s);
                     s1 = put_machine src src_m s
                 in if available < raw_material_needed then (Inr False, s1)
                    else start_processing r batch_size s1
             | None \<Rightarrow>
                 start_processing r batch_size
                   (put_machine r
                      ((machine_of r s)\<lparr>raw_material_consumed :=
                           raw_material_consumed (machine_of r s) + raw_material_needed\<rparr>) s)))"

definition request_shipment :: "tref \<Rightarrow> system \<Rightarrow> bool \<times> system" where
  "request_shipment r s =
     (if t_state (truck_of r s) \<noteq> Available then (False, s)
      else
        case (t_source_machine (truck_of r s), t_client (truck_of r s)) of
          (Some src, Some cl) \<Rightarrow>
            let (retrieved_quantity, src_m) = retrieve_quantity (capacity (truck_of r s)) (machine_of src s);
                s1 = put_machine src src_m s
            in if retrieved_quantity \<le> 0 then (False, s1)
               else (True,
                     put_truck r
                       ((truck_of r s1)\<lparr>current_load := retrieved_quantity, t_state := Delivering,
                                         t_time_remaining := time_to_deliver (truck_of r s1)\<rparr>) s1)
        | _ \<Rightarrow> (False, s))"

text \<open>
  \<^verbatim>\<open>Truck.step\<close>. The countdown is decremented before the client is called, so an
  exception of \<^verbatim>\<open>quantity_shipped\<close> leaves the truck with the decremented countdown,
  still delivering, its load untouched.
\<close>

definition truck_step :: "tref \<Rightarrow> system \<Rightarrow> (error + bool) \<times> system" where
  "truck_step r s =
     (if t_state (truck_of r s) = Delivering then
        let t1 = (truck_of r s)\<lparr>t_time_remaining := t_time_remaining (truck_of r s) - 1\<rparr>;
            s1 = put_truck r t1 s
        in if t_time_remaining t1 \<le> 0 then
             (case t_client t1 of
                Some cl \<Rightarrow>
                  (case quantity_shipped (current_load t1) (client s1) of
                     (Inl e, c') \<Rightarrow> (Inl e, s1\<lparr>client := c'\<rparr>)
                   | (Inr payment, c') \<Rightarrow>
                       (Inr True,
                        put_truck r (t1\<lparr>t_state := Available, current_load := 0\<rparr>)
                          (s1\<lparr>client := c'\<rparr>)))
              | None \<Rightarrow> (Inr True, put_truck r (t1\<lparr>t_state := Available, current_load := 0\<rparr>) s1))
           else (Inr False, s1)
      else (Inr False, s))"

section \<open>IEEE double precision\<close>

text \<open>
  A Python \<^verbatim>\<open>float\<close> is an IEEE 754 double. A finite double is modelled by the rational
  it denotes, and an arithmetic operation on doubles by the exact operation followed by
  \<open>double_round\<close>: rounding to the nearest double, ties to the even significand.
  \<open>binade x\<close> is the exponent \<open>e\<close> with \<open>2^e \<le> |x| < 2^(e+1)\<close>; a double of that
  binade is a multiple of \<open>2^(e-52)\<close>, and below \<open>2^-1022\<close> the spacing stays \<open>2^-1074\<close>
  (the subnormal numbers). Overflow to infinity, which starts at \<open>2^1024\<close>, is outside
  the model.
\<close>

fun log2_nat :: "nat \<Rightarrow> nat" where
  "log2_nat n = (if n < 2 then 0 else Suc (log2_nat (n div 2)))"

declare log2_nat.simps [simp del]

definition binade :: "rat \<Rightarrow> int" where
  "binade x =
     (if 1 \<le> \<bar>x\<bar> then int (log2_nat (nat \<lfloor>\<bar>x\<bar>\<rfloor>))
      else - int (log2_nat (nat \<lceil>1 / \<bar>x\<bar>\<rceil> - 1)) - 1)"

definition round_half_even :: "rat \<Rightarrow> int" where
  "round_half_even x =
     (let f = \<lfloor>x\<rfloor>; r = x - of_int f
      in if r < 1/2 then f else if 1/2 < r then f + 1 else if even f then f else f + 1)"

definition ulp_of :: "rat \<Rightarrow> rat" where
  "ulp_of x = 2 powi (max (binade x) (- 1022) - 52)"

definition double_round :: "rat \<Rightarrow> rat" where
  "double_round x = (if x = 0 then 0 else of_int (round_half_even (x / ulp_of x)) * ulp_of x)"

section \<open>System\<close>

text \<open>
  Python's \<^verbatim>\<open>int(x)\<close> on a number: truncation towards zero.
\<close>

definition py_int :: "rat \<Rightarrow> int" where
  "py_int x = (if x \<ge> 0 then \<lfloor>x\<rfloor> else \<lceil>x\<rceil>)"

text \<open>
  The helper of \<^verbatim>\<open>get_state\<close>: the product \<^verbatim>\<open>value * 6\<close> and the quotient
  \<^verbatim>\<open>sixths / 6\<close> are operations on doubles.
\<close>

definition quantize :: "rat \<Rightarrow> rat" where
  "quantize v =
     (let v = max 0 (min 1 v);
          sixths = py_int (double_round (v * 6))
      in double_round (of_int sixths / 6))"

record observation =
  client_current_priority :: string
  quantity_shipped_to_the_client :: rat
  time_to_penalty :: int
  m1_status :: string
  m1_stored :: rat
  m1_to_completion :: int
  m2_status :: string
  m2_stored :: rat
  m2_to_completion :: int
  ts_status :: string
  ts_to_completion :: int
  tb_status :: string
  tb_to_completion :: int

text \<open>The pieces of \<^verbatim>\<open>get_state\<close>, one per entity, in the order the method computes them.\<close>

definition priority_tag :: "client \<Rightarrow> string" where
  "priority_tag c = (case current_priority c of None \<Rightarrow> ''none'' | Some p \<Rightarrow> (if p = [] then ''none'' else p))"

definition time_to_penalty_of :: "client \<Rightarrow> error + int" where
  "time_to_penalty_of c =
     (if c_state c \<in> {Order_placed, Wait_for_completion} then
        (case time_limit c of
           None \<Rightarrow> Inl TypeError
         | Some deadline \<Rightarrow>
             Inr (if time_passed c > deadline then -1 else max 0 (deadline - time_passed c)))
      else Inr (-1))"

definition machine_status :: "machine \<Rightarrow> string" where
  "machine_status m =
     (if m_state m = Processing then
        ''processing_'' @ (case current_batch_size m of None \<Rightarrow> ''None'' | Some b \<Rightarrow> b)
      else machine_state_str (m_state m))"

definition machine_to_completion :: "machine \<Rightarrow> int" where
  "machine_to_completion m = (if m_state m = Processing then m_time_remaining m else 0)"

definition small_truck_status :: "truck \<Rightarrow> string" where
  "small_truck_status t =
     (if t_state t = Delivering then
        (if current_load t = 0 then ''shipping_zero'' else ''shipping_third'')
      else ''idle'')"

definition big_truck_status :: "truck \<Rightarrow> string" where
  "big_truck_status t =
     (if t_state t = Delivering then
        (let load = quantize (current_load t)
         in if load = 0 then ''shipping_zero''
            else if load \<le> double_round (1/3) then ''shipping_third''
            else if load \<le> double_round (2/3) then ''shipping_half''
            else ''shipping_full'')
      else ''idle'')"

definition truck_to_completion :: "truck \<Rightarrow> int" where
  "truck_to_completion t = (if t_state t = Delivering then t_time_remaining t else 0)"

definition get_state :: "system \<Rightarrow> error + observation" where
  "get_state s =
     (case time_to_penalty_of (client s) of
        Inl e \<Rightarrow> Inl e
      | Inr ttp \<Rightarrow>
          Inr \<lparr> client_current_priority = priority_tag (client s),
                quantity_shipped_to_the_client = quantize (order_quantity (client s)),
                time_to_penalty = ttp,
                m1_status = machine_status (m1 s),
                m1_stored = quantize (stored_output (m1 s)),
                m1_to_completion = machine_to_completion (m1 s),
                m2_status = machine_status (m2 s),
                m2_stored = quantize (stored_output (m2 s)),
                m2_to_completion = machine_to_completion (m2 s),
                ts_status = small_truck_status (small_truck s),
                ts_to_completion = truck_to_completion (small_truck s),
                tb_status = big_truck_status (big_truck s),
                tb_to_completion = truck_to_completion (big_truck s) \<rparr>)"

text \<open>
  The ten per-entity commands: one request inside \<^verbatim>\<open>try\<close>, its result and any
  exception dropped, then \<^verbatim>\<open>get_state\<close> outside the \<^verbatim>\<open>try\<close>.
\<close>

definition m1_processing_third :: "system \<Rightarrow> (error + observation) \<times> system" where
  "m1_processing_third s = (let s' = snd (request_processing M1 ''third'' s) in (get_state s', s'))"

definition m1_processing_half :: "system \<Rightarrow> (error + observation) \<times> system" where
  "m1_processing_half s = (let s' = snd (request_processing M1 ''half'' s) in (get_state s', s'))"

definition m1_processing_full :: "system \<Rightarrow> (error + observation) \<times> system" where
  "m1_processing_full s = (let s' = snd (request_processing M1 ''full'' s) in (get_state s', s'))"

definition m1_maintenance :: "system \<Rightarrow> (error + observation) \<times> system" where
  "m1_maintenance s = (let s' = s\<lparr>m1 := snd (request_maintenance (m1 s))\<rparr> in (get_state s', s'))"

definition m2_processing_third :: "system \<Rightarrow> (error + observation) \<times> system" where
  "m2_processing_third s = (let s' = snd (request_processing M2 ''third'' s) in (get_state s', s'))"

definition m2_processing_half :: "system \<Rightarrow> (error + observation) \<times> system" where
  "m2_processing_half s = (let s' = snd (request_processing M2 ''half'' s) in (get_state s', s'))"

definition m2_processing_full :: "system \<Rightarrow> (error + observation) \<times> system" where
  "m2_processing_full s = (let s' = snd (request_processing M2 ''full'' s) in (get_state s', s'))"

definition m2_maintenance :: "system \<Rightarrow> (error + observation) \<times> system" where
  "m2_maintenance s = (let s' = s\<lparr>m2 := snd (request_maintenance (m2 s))\<rparr> in (get_state s', s'))"

definition small_truck_shipment :: "system \<Rightarrow> (error + observation) \<times> system" where
  "small_truck_shipment s = (let s' = snd (request_shipment Small s) in (get_state s', s'))"

definition big_truck_shipment :: "system \<Rightarrow> (error + observation) \<times> system" where
  "big_truck_shipment s = (let s' = snd (request_shipment Big s) in (get_state s', s'))"

text \<open>
  The values one command may draw from the random generator: the outcome sampled by
  each machine if its batch completes, and the number \<^verbatim>\<open>place_order\<close> draws.
\<close>

record draws =
  m1_outcome :: string
  m2_outcome :: string
  rand_val :: rat

fun outcome_for :: "draws \<Rightarrow> mref \<Rightarrow> string" where
  "outcome_for d M1 = m1_outcome d"
| "outcome_for d M2 = m2_outcome d"

text \<open>The three loops of \<^verbatim>\<open>step\<close> and \<^verbatim>\<open>reset\<close>, each body inside its own \<^verbatim>\<open>try\<close>.\<close>

fun step_machines :: "draws \<Rightarrow> mref list \<Rightarrow> system \<Rightarrow> system" where
  "step_machines d [] s = s"
| "step_machines d (r # rs) s =
     step_machines d rs (put_machine r (snd (machine_step (outcome_for d r) (machine_of r s))) s)"

fun step_trucks :: "tref list \<Rightarrow> system \<Rightarrow> system" where
  "step_trucks [] s = s"
| "step_trucks (r # rs) s = step_trucks rs (snd (truck_step r s))"

definition system_step :: "draws \<Rightarrow> system \<Rightarrow> (error + observation) \<times> system" where
  "system_step d s =
     (let s1 = step_machines d (machines s) s;
          s2 = step_trucks (trucks s1) s1;
          s3 = s2\<lparr>client := snd (step_time (client s2))\<rparr>
      in (get_state s3, s3))"

fun reset_machines :: "mref list \<Rightarrow> system \<Rightarrow> system" where
  "reset_machines [] s = s"
| "reset_machines (r # rs) s = reset_machines rs (put_machine r (machine_reset (machine_of r s)) s)"

fun reset_trucks :: "tref list \<Rightarrow> system \<Rightarrow> system" where
  "reset_trucks [] s = s"
| "reset_trucks (r # rs) s = reset_trucks rs (put_truck r (truck_reset (truck_of r s)) s)"

definition system_reset :: "draws \<Rightarrow> system \<Rightarrow> (error + observation) \<times> system" where
  "system_reset d s =
     (let s0 = s\<lparr>current_enacted_strategy := 0\<rparr>;
          s1 = s0\<lparr>client := client_reset (client s0)\<rparr>;
          s2 = reset_machines (machines s1) s1;
          s3 = reset_trucks (trucks s2) s2;
          s4 = (case place_order (rand_val d) (client s3) of
                  (Inl e, c') \<Rightarrow> s3\<lparr>client := c'\<rparr>
                | (Inr p, c') \<Rightarrow> snd (m1_processing_full (s3\<lparr>client := c', s_current_priority := Some p\<rparr>)))
      in (get_state s4, s4))"


text \<open>
  \<^verbatim>\<open>action\<close> with \<^verbatim>\<open>repr=False\<close>: the dictionary of bound methods, and the
  \<^verbatim>\<open>ValueError\<close> for a name it does not hold.
\<close>

definition action_methods :: "(string \<times> (draws \<Rightarrow> system \<Rightarrow> (error + observation) \<times> system)) list" where
  "action_methods =
     [(''m1_processing_third'', \<lambda>d. m1_processing_third),
      (''m1_processing_half'', \<lambda>d. m1_processing_half),
      (''m1_processing_full'', \<lambda>d. m1_processing_full),
      (''m1_maintenance'', \<lambda>d. m1_maintenance),
      (''m2_processing_third'', \<lambda>d. m2_processing_third),
      (''m2_processing_half'', \<lambda>d. m2_processing_half),
      (''m2_processing_full'', \<lambda>d. m2_processing_full),
      (''m2_maintenance'', \<lambda>d. m2_maintenance),
      (''small_truck_shipment'', \<lambda>d. small_truck_shipment),
      (''big_truck_shipment'', \<lambda>d. big_truck_shipment),
      (''step'', system_step),
      (''reset'', system_reset)]"

definition action :: "string \<Rightarrow> draws \<Rightarrow> system \<Rightarrow> (error + observation) \<times> system" where
  "action action_str d s =
     (case map_of action_methods action_str of
        Some f \<Rightarrow> f d s
      | None \<Rightarrow> (Inl ValueError, s))"

text \<open>
  \<^verbatim>\<open>enact_strategy\<close>. \<open>strategy_command\<close> is the chain of \<^verbatim>\<open>if\<close>/\<^verbatim>\<open>elif\<close> that picks the
  command, over the decision variables the method computes first. The method returns
  either the terminal string or a string formatted from the executed command and the
  observation \<^verbatim>\<open>action\<close> returned; the result type keeps those two instead of the
  formatted text.
\<close>

definition strategy_command :: "system \<Rightarrow> string" where
  "strategy_command s =
     (let m1_st = m_state (m1 s);
          m1_stored_v = stored_output (m1 s);
          m2_st = m_state (m2 s);
          m2_stored_v = stored_output (m2 s);
          ts_st = t_state (small_truck s);
          tb_st = t_state (big_truck s);
          client_quantity = order_quantity (client s);
          m1_running = (m1_st \<noteq> M_idle);
          m2_running = (m2_st \<noteq> M_idle);
          ts_running = (ts_st \<noteq> Available);
          tb_running = (tb_st \<noteq> Available);
          m1_maintenance_active = (maintenance_active (m1 s) \<or> m1_st = Maintenance);
          m2_maintenance_active = (maintenance_active (m2 s) \<or> m2_st = Maintenance)
      in if \<not> m2_maintenance_active then ''m2_maintenance''
         else if \<not> m2_running \<and> m1_stored_v > 0 \<and> client_quantity < 1 then ''m2_processing_third''
         else if \<not> m1_running \<and> \<not> m1_maintenance_active \<and> client_quantity < 1 then ''m1_maintenance''
         else if \<not> m1_running \<and> client_quantity < 1 then ''m1_processing_full''
         else if \<not> ts_running \<and> m2_stored_v > 0 then ''small_truck_shipment''
         else if \<not> ts_running \<and> \<not> tb_running \<and> m2_stored_v > 0 then ''big_truck_shipment''
         else ''step'')"

definition bool_str :: "bool \<Rightarrow> string" where
  "bool_str b = (if b then ''True'' else ''False'')"

datatype strategy_result = Terminal string | Enacted string observation

definition enact_strategy :: "draws \<Rightarrow> system \<Rightarrow> (error + strategy_result) \<times> system" where
  "enact_strategy d s =
     (if c_state (client s) = Completed \<and> order_quantity (client s) \<ge> 1 then
        (case time_limit (client s) of
           None \<Rightarrow> (Inl TypeError, s)
         | Some deadline \<Rightarrow>
             (Inr (Terminal (''Completed '' @ bool_str (time_passed (client s) \<le> deadline) @ '' '' @
                             (case current_priority (client s) of None \<Rightarrow> ''None'' | Some p \<Rightarrow> p))),
              s))
      else
        let command = strategy_command s
        in case action command d s of
             (Inl e, s') \<Rightarrow> (Inl e, s')
           | (Inr ob, s') \<Rightarrow> (Inr (Enacted command ob), s'))"

section \<open>Runs and reachable states\<close>

text \<open>
  A run issues named commands through \<^verbatim>\<open>action\<close>, each with the values it draws.
  \<open>valid_draws\<close> says what the generator can deliver in a state: a number in \<open>[0, 1)\<close>,
  and for each machine an outcome among the keys of the table of its current batch.
\<close>

fun run :: "(string \<times> draws) list \<Rightarrow> system \<Rightarrow> system" where
  "run [] s = s"
| "run ((a, d) # rest) s = run rest (snd (action a d s))"

definition valid_outcome :: "string \<Rightarrow> machine \<Rightarrow> bool" where
  "valid_outcome outcome m = (m_state m = Processing \<and> outcome \<in> set (possible_outcomes m) \<or> m_state m \<noteq> Processing)"

definition valid_draws :: "draws \<Rightarrow> system \<Rightarrow> bool" where
  "valid_draws d s =
     (0 \<le> rand_val d \<and> rand_val d < 1 \<and>
      valid_outcome (m1_outcome d) (m1 s) \<and> valid_outcome (m2_outcome d) (m2 s))"


section \<open>The System on doubles\<close>

text \<open>
  The methods that compute with quantities, once more, with the result of every
  operation on floats rounded to a double: the sums and differences of
  \<^verbatim>\<open>stored_output\<close>, \<^verbatim>\<open>raw_material_consumed\<close>, \<^verbatim>\<open>order_quantity\<close> and
  \<^verbatim>\<open>current_payment\<close>, the product \<^verbatim>\<open>quantity * rate\<close>, and the literal \<^verbatim>\<open>1/3\<close>
  of a third of a batch and of the capacity of the small truck. Comparisons and
  \<^verbatim>\<open>min\<close> are exact on doubles. Each definition has the name of its exact counterpart
  with the suffix \<open>_d\<close>, and differs from it in those roundings only; the methods that
  do no arithmetic on floats (\<^verbatim>\<open>place_order\<close>, \<^verbatim>\<open>step_time\<close>,
  \<^verbatim>\<open>request_maintenance\<close>, the resets, \<^verbatim>\<open>get_state\<close>) are shared.
\<close>

definition size_quantity_d :: "(string \<times> rat) list" where
  "size_quantity_d = [(''full'', 1), (''half'', 1/2), (''third'', double_round (1/3))]"

definition retrieve_quantity_d :: "rat \<Rightarrow> machine \<Rightarrow> rat \<times> machine" where
  "retrieve_quantity_d max_quantity m =
     (let quantity = min max_quantity (stored_output m)
      in (quantity, m\<lparr>stored_output := double_round (stored_output m - quantity)\<rparr>))"

definition machine_step_d :: "string \<Rightarrow> machine \<Rightarrow> (error + bool) \<times> machine" where
  "machine_step_d outcome m =
     (if m_state m = Processing then
        let m1 = m\<lparr>m_time_remaining := m_time_remaining m - 1\<rparr>
        in if m_time_remaining m1 \<le> 0 then
             (case current_batch_size m1 of
                None \<Rightarrow> (Inl KeyError, m1)
              | Some b \<Rightarrow>
                  (case map_of (outcome_table m1) b of
                     None \<Rightarrow> (Inl KeyError, m1)
                   | Some probabilities \<Rightarrow>
                       if outcome \<noteq> ''none'' then
                         (case map_of size_quantity_d outcome of
                            None \<Rightarrow> (Inl KeyError, m1)
                          | Some output_quantity \<Rightarrow>
                              (Inr True,
                               m1\<lparr>stored_output := double_round (stored_output m1 + output_quantity),
                                  m_state := M_idle, current_batch_size := None\<rparr>))
                       else (Inr True, m1\<lparr>m_state := M_idle, current_batch_size := None\<rparr>)))
           else (Inr False, m1)
      else if m_state m = Maintenance then
        let m1 = m\<lparr>m_time_remaining := m_time_remaining m - 1\<rparr>
        in if m_time_remaining m1 \<le> 0 then
             (Inr True, m1\<lparr>maintenance_active := True, m_state := M_idle\<rparr>)
           else (Inr False, m1)
      else (Inr False, m))"

definition quantity_shipped_d :: "rat \<Rightarrow> client \<Rightarrow> (error + rat) \<times> client" where
  "quantity_shipped_d quantity c =
     (if c_state c \<notin> {Order_placed, Wait_for_completion} then (Inl ValueError, c)
      else if quantity \<le> 0 \<or> double_round (order_quantity c + quantity) > 1 then (Inl ValueError, c)
      else
        case time_limit c of
          None \<Rightarrow> (Inl TypeError, c)
        | Some deadline \<Rightarrow>
            (case (if time_passed c \<le> deadline then in_time_payment c else out_of_time_payment c) of
               None \<Rightarrow> (Inl TypeError, c)
             | Some rate \<Rightarrow>
                 let payment = double_round (quantity * rate);
                     c1 = c\<lparr>order_quantity := double_round (order_quantity c + quantity),
                            current_payment := double_round (current_payment c + payment)\<rparr>;
                     c2 = (if order_quantity c1 \<ge> 1 then c1\<lparr>c_state := Completed\<rparr>
                           else c1\<lparr>c_state := Wait_for_completion\<rparr>)
                 in (Inr payment, c2)))"

definition request_processing_d :: "mref \<Rightarrow> string \<Rightarrow> system \<Rightarrow> (error + bool) \<times> system" where
  "request_processing_d r batch_size s =
     (if m_state (machine_of r s) \<noteq> M_idle then (Inr False, s)
      else if batch_size \<notin> set [''full'', ''half'', ''third''] then (Inl ValueError, s)
      else
        case map_of size_quantity_d batch_size of
          None \<Rightarrow> (Inl KeyError, s)
        | Some raw_material_needed \<Rightarrow>
            (case source_machine (machine_of r s) of
               Some src \<Rightarrow>
                 let (available, src_m) = retrieve_quantity_d raw_material_needed (machine_of src s);
                     s1 = put_machine src src_m s
                 in if available < raw_material_needed then (Inr False, s1)
                    else start_processing r batch_size s1
             | None \<Rightarrow>
                 start_processing r batch_size
                   (put_machine r
                      ((machine_of r s)\<lparr>raw_material_consumed :=
                           double_round (raw_material_consumed (machine_of r s) + raw_material_needed)\<rparr>) s)))"

definition request_shipment_d :: "tref \<Rightarrow> system \<Rightarrow> bool \<times> system" where
  "request_shipment_d r s =
     (if t_state (truck_of r s) \<noteq> Available then (False, s)
      else
        case (t_source_machine (truck_of r s), t_client (truck_of r s)) of
          (Some src, Some cl) \<Rightarrow>
            let (retrieved_quantity, src_m) = retrieve_quantity_d (capacity (truck_of r s)) (machine_of src s);
                s1 = put_machine src src_m s
            in if retrieved_quantity \<le> 0 then (False, s1)
               else (True,
                     put_truck r
                       ((truck_of r s1)\<lparr>current_load := retrieved_quantity, t_state := Delivering,
                                         t_time_remaining := time_to_deliver (truck_of r s1)\<rparr>) s1)
        | _ \<Rightarrow> (False, s))"

definition truck_step_d :: "tref \<Rightarrow> system \<Rightarrow> (error + bool) \<times> system" where
  "truck_step_d r s =
     (if t_state (truck_of r s) = Delivering then
        let t1 = (truck_of r s)\<lparr>t_time_remaining := t_time_remaining (truck_of r s) - 1\<rparr>;
            s1 = put_truck r t1 s
        in if t_time_remaining t1 \<le> 0 then
             (case t_client t1 of
                Some cl \<Rightarrow>
                  (case quantity_shipped_d (current_load t1) (client s1) of
                     (Inl e, c') \<Rightarrow> (Inl e, s1\<lparr>client := c'\<rparr>)
                   | (Inr payment, c') \<Rightarrow>
                       (Inr True,
                        put_truck r (t1\<lparr>t_state := Available, current_load := 0\<rparr>)
                          (s1\<lparr>client := c'\<rparr>)))
              | None \<Rightarrow> (Inr True, put_truck r (t1\<lparr>t_state := Available, current_load := 0\<rparr>) s1))
           else (Inr False, s1)
      else (Inr False, s))"

definition m1_processing_third_d :: "system \<Rightarrow> (error + observation) \<times> system" where
  "m1_processing_third_d s = (let s' = snd (request_processing_d M1 ''third'' s) in (get_state s', s'))"

definition m1_processing_half_d :: "system \<Rightarrow> (error + observation) \<times> system" where
  "m1_processing_half_d s = (let s' = snd (request_processing_d M1 ''half'' s) in (get_state s', s'))"

definition m1_processing_full_d :: "system \<Rightarrow> (error + observation) \<times> system" where
  "m1_processing_full_d s = (let s' = snd (request_processing_d M1 ''full'' s) in (get_state s', s'))"

definition m2_processing_third_d :: "system \<Rightarrow> (error + observation) \<times> system" where
  "m2_processing_third_d s = (let s' = snd (request_processing_d M2 ''third'' s) in (get_state s', s'))"

definition m2_processing_half_d :: "system \<Rightarrow> (error + observation) \<times> system" where
  "m2_processing_half_d s = (let s' = snd (request_processing_d M2 ''half'' s) in (get_state s', s'))"

definition m2_processing_full_d :: "system \<Rightarrow> (error + observation) \<times> system" where
  "m2_processing_full_d s = (let s' = snd (request_processing_d M2 ''full'' s) in (get_state s', s'))"

definition small_truck_shipment_d :: "system \<Rightarrow> (error + observation) \<times> system" where
  "small_truck_shipment_d s = (let s' = snd (request_shipment_d Small s) in (get_state s', s'))"

definition big_truck_shipment_d :: "system \<Rightarrow> (error + observation) \<times> system" where
  "big_truck_shipment_d s = (let s' = snd (request_shipment_d Big s) in (get_state s', s'))"

fun step_machines_d :: "draws \<Rightarrow> mref list \<Rightarrow> system \<Rightarrow> system" where
  "step_machines_d d [] s = s"
| "step_machines_d d (r # rs) s =
     step_machines_d d rs (put_machine r (snd (machine_step_d (outcome_for d r) (machine_of r s))) s)"

fun step_trucks_d :: "tref list \<Rightarrow> system \<Rightarrow> system" where
  "step_trucks_d [] s = s"
| "step_trucks_d (r # rs) s = step_trucks_d rs (snd (truck_step_d r s))"

definition system_step_d :: "draws \<Rightarrow> system \<Rightarrow> (error + observation) \<times> system" where
  "system_step_d d s =
     (let s1 = step_machines_d d (machines s) s;
          s2 = step_trucks_d (trucks s1) s1;
          s3 = s2\<lparr>client := snd (step_time (client s2))\<rparr>
      in (get_state s3, s3))"

definition system_reset_d :: "draws \<Rightarrow> system \<Rightarrow> (error + observation) \<times> system" where
  "system_reset_d d s =
     (let s0 = s\<lparr>current_enacted_strategy := 0\<rparr>;
          s1 = s0\<lparr>client := client_reset (client s0)\<rparr>;
          s2 = reset_machines (machines s1) s1;
          s3 = reset_trucks (trucks s2) s2;
          s4 = (case place_order (rand_val d) (client s3) of
                  (Inl e, c') \<Rightarrow> s3\<lparr>client := c'\<rparr>
                | (Inr p, c') \<Rightarrow> snd (m1_processing_full_d (s3\<lparr>client := c', s_current_priority := Some p\<rparr>)))
      in (get_state s4, s4))"

definition System_init_d :: "rat \<Rightarrow> error + system" where
  "System_init_d rv =
     (let c = Client_init default_priority_distribution default_order_penalties;
          ma = Machine_init ''M1'';
          mb = (Machine_init ''M2'')\<lparr>source_machine := Some M1\<rparr>;
          ts = (Truck_init (double_round (1/3)) 2 ''Small Truck'')\<lparr>t_source_machine := Some M2, t_client := Some The_client\<rparr>;
          tb = (Truck_init 1 3 ''Big Truck'')\<lparr>t_source_machine := Some M2, t_client := Some The_client\<rparr>
      in case place_order rv c of
           (Inl e, c') \<Rightarrow> Inl e
         | (Inr p, c') \<Rightarrow>
             (case m1_processing_full_d
                     \<lparr> client = c', m1 = ma, m2 = mb, small_truck = ts, big_truck = tb,
                       time = 0, total_profit = 0, s_current_priority = Some p,
                       machines = [M1, M2], trucks = [Small, Big],
                       current_enacted_strategy = 0 \<rparr> of
                (Inl e, s) \<Rightarrow> Inl e
              | (Inr ob, s) \<Rightarrow> Inr s))"

definition action_methods_d :: "(string \<times> (draws \<Rightarrow> system \<Rightarrow> (error + observation) \<times> system)) list" where
  "action_methods_d =
     [(''m1_processing_third'', \<lambda>d. m1_processing_third_d),
      (''m1_processing_half'', \<lambda>d. m1_processing_half_d),
      (''m1_processing_full'', \<lambda>d. m1_processing_full_d),
      (''m1_maintenance'', \<lambda>d. m1_maintenance),
      (''m2_processing_third'', \<lambda>d. m2_processing_third_d),
      (''m2_processing_half'', \<lambda>d. m2_processing_half_d),
      (''m2_processing_full'', \<lambda>d. m2_processing_full_d),
      (''m2_maintenance'', \<lambda>d. m2_maintenance),
      (''small_truck_shipment'', \<lambda>d. small_truck_shipment_d),
      (''big_truck_shipment'', \<lambda>d. big_truck_shipment_d),
      (''step'', system_step_d),
      (''reset'', system_reset_d)]"

definition action_d :: "string \<Rightarrow> draws \<Rightarrow> system \<Rightarrow> (error + observation) \<times> system" where
  "action_d action_str d s =
     (case map_of action_methods_d action_str of
        Some f \<Rightarrow> f d s
      | None \<Rightarrow> (Inl ValueError, s))"

fun run_d :: "(string \<times> draws) list \<Rightarrow> system \<Rightarrow> system" where
  "run_d [] s = s"
| "run_d ((a, d) # rest) s = run_d rest (snd (action_d a d s))"

fun valid_run_d :: "(string \<times> draws) list \<Rightarrow> system \<Rightarrow> bool" where
  "valid_run_d [] s = True"
| "valid_run_d ((a, d) # rest) s = (valid_draws d s \<and> valid_run_d rest (snd (action_d a d s)))"

section \<open>Vocabulary of the properties\<close>

text \<open>
  The operations a caller has on a Client between two resets, and the states a
  sequence of them visits. An operation that raises leaves the state its method had
  reached.
\<close>

datatype client_op = Place_order rat | Quantity_shipped rat | Step_time

fun client_apply :: "client_op \<Rightarrow> client \<Rightarrow> client" where
  "client_apply (Place_order rv) c = snd (place_order rv c)"
| "client_apply (Quantity_shipped q) c = snd (quantity_shipped q c)"
| "client_apply Step_time c = snd (step_time c)"

fun client_trace :: "client_op list \<Rightarrow> client \<Rightarrow> client list" where
  "client_trace [] c = [c]"
| "client_trace (x # xs) c = c # client_trace xs (client_apply x c)"

text \<open>
  The deadline and both rates are set whenever an order has been placed:
  \<^verbatim>\<open>place_order\<close> assigns the three together and only \<^verbatim>\<open>reset\<close> clears them.
\<close>

definition order_params_set :: "client \<Rightarrow> bool" where
  "order_params_set c =
     (time_limit c \<noteq> None \<and> in_time_payment c \<noteq> None \<and> out_of_time_payment c \<noteq> None \<and>
      current_priority c \<noteq> None)"

definition client_ok :: "client \<Rightarrow> bool" where
  "client_ok c = (c_state c = C_idle \<or> order_params_set c)"

definition raises :: "(error + 'a) \<times> 's \<Rightarrow> bool" where
  "raises r = isl (fst r)"

text \<open>What each state of the order lifecycle says about the quantity received so far.\<close>

definition client_inv :: "client \<Rightarrow> bool" where
  "client_inv c =
     (case c_state c of
        C_idle \<Rightarrow> order_quantity c = 0
      | Order_placed \<Rightarrow> order_quantity c = 0
      | Wait_for_completion \<Rightarrow> 0 < order_quantity c \<and> order_quantity c < 1
      | Completed \<Rightarrow> order_quantity c = 1)"

definition placed_client :: client where
  "placed_client = snd (place_order 0 (Client_init default_priority_distribution default_order_penalties))"

text \<open>
  What \<^verbatim>\<open>System.__init__\<close> fixes for the lifetime of a System: the two lists, the
  references between the objects, and the configuration of each object.
\<close>

definition default_machine_config :: "machine \<Rightarrow> bool" where
  "default_machine_config m =
     (processing_times m = default_processing_times \<and>
      success_probabilities m = default_success_probabilities \<and>
      maintenance_effect m = default_maintenance_effect \<and>
      maintenance_time m = 2 \<and> maintenance_operator_cost m = 1)"


text \<open>
  Where the material is. \<open>in_flight\<close> is the raw input of the batch a machine is
  processing, \<open>in_transit\<close> the load of a truck on its way, \<open>downstream_material\<close> the
  sum the conservation property compares with the raw material M1 has consumed.
\<close>

definition in_flight :: "machine \<Rightarrow> rat" where
  "in_flight m =
     (if m_state m = Processing then
        (case current_batch_size m of
           None \<Rightarrow> 0
         | Some b \<Rightarrow> (case map_of size_quantity b of None \<Rightarrow> 0 | Some q \<Rightarrow> q))
      else 0)"

definition in_transit :: "truck \<Rightarrow> rat" where
  "in_transit t = (if t_state t = Delivering then current_load t else 0)"


text \<open>A machine that is processing holds one of the three batch sizes.\<close>

definition batch_ok :: "machine \<Rightarrow> bool" where
  "batch_ok m =
     (m_state m = Processing \<and> current_batch_size m \<in> {Some ''full'', Some ''half'', Some ''third''} \<or>
      m_state m \<noteq> Processing \<and> current_batch_size m = None)"




text \<open>
  Concrete states and draws for the examples: the System as its constructor leaves it
  when \<^verbatim>\<open>random.random()\<close> returns 0 (priority low), and draws in which M1 samples
  \<^verbatim>\<open>half\<close> and M2 samples \<^verbatim>\<open>third\<close>.
\<close>

definition fresh_low :: system where
  "fresh_low =
     \<lparr> client = placed_client,
       m1 = (Machine_init ''M1'')\<lparr>m_state := Processing, current_batch_size := Some ''full'',
                                   m_time_remaining := 3, raw_material_consumed := 1\<rparr>,
       m2 = (Machine_init ''M2'')\<lparr>source_machine := Some M1\<rparr>,
       small_truck = (Truck_init (1/3) 2 ''Small Truck'')\<lparr>t_source_machine := Some M2, t_client := Some The_client\<rparr>,
       big_truck = (Truck_init 1 3 ''Big Truck'')\<lparr>t_source_machine := Some M2, t_client := Some The_client\<rparr>,
       time = 0, total_profit = 0, s_current_priority = Some ''low'',
       machines = [M1, M2], trucks = [Small, Big], current_enacted_strategy = 0 \<rparr>"

definition half_third :: draws where
  "half_third = \<lparr> m1_outcome = ''half'', m2_outcome = ''third'', rand_val = 0 \<rparr>"

definition three_steps :: "(string \<times> draws) list" where
  "three_steps = [(''step'', half_third), (''step'', half_third), (''step'', half_third)]"

text \<open>
  A run of thirteen commands after which both trucks are one tick from the client:
  the small truck with 1/3, the big truck with a full unit, the order still empty.
\<close>

definition full_third :: draws where
  "full_third = \<lparr> m1_outcome = ''full'', m2_outcome = ''third'', rand_val = 0 \<rparr>"

definition full_full :: draws where
  "full_full = \<lparr> m1_outcome = ''full'', m2_outcome = ''full'', rand_val = 0 \<rparr>"







definition rule_small_truck_shipment :: "system \<Rightarrow> bool" where
  "rule_small_truck_shipment s =
     (t_state (small_truck s) = Available \<and> 0 < stored_output (m2 s))"

definition rule_big_truck_shipment :: "system \<Rightarrow> bool" where
  "rule_big_truck_shipment s =
     (t_state (small_truck s) = Available \<and> t_state (big_truck s) = Available \<and>
      0 < stored_output (m2 s))"



text \<open>Repeated calls of \<^verbatim>\<open>enact_strategy\<close> and of \<^verbatim>\<open>step\<close>, one record of draws per call.\<close>

fun enact_run :: "draws list \<Rightarrow> system \<Rightarrow> system" where
  "enact_run [] s = s"
| "enact_run (d # ds) s = enact_run ds (snd (enact_strategy d s))"










text \<open>
  The vocabulary of the material accounting on doubles: the wiring with the capacity
  of the small truck as the constructor computes it, the input of a batch in flight
  and the sum downstream of M1, each a sum of doubles taken exactly.
\<close>

definition wired_d :: "system \<Rightarrow> bool" where
  "wired_d s =
     (machines s = [M1, M2] \<and> trucks s = [Small, Big] \<and>
      source_machine (m1 s) = None \<and> source_machine (m2 s) = Some M1 \<and>
      t_source_machine (small_truck s) = Some M2 \<and> t_source_machine (big_truck s) = Some M2 \<and>
      t_client (small_truck s) = Some The_client \<and> t_client (big_truck s) = Some The_client \<and>
      capacity (small_truck s) = double_round (1/3) \<and> capacity (big_truck s) = 1 \<and>
      time_to_deliver (small_truck s) = 2 \<and> time_to_deliver (big_truck s) = 3 \<and>
      default_machine_config (m1 s) \<and> default_machine_config (m2 s) \<and>
      priority_distribution (client s) = default_priority_distribution \<and>
      order_penalties (client s) = default_order_penalties)"

definition in_flight_d :: "machine \<Rightarrow> rat" where
  "in_flight_d m =
     (if m_state m = Processing then
        (case current_batch_size m of
           None \<Rightarrow> 0
         | Some b \<Rightarrow> (case map_of size_quantity_d b of None \<Rightarrow> 0 | Some q \<Rightarrow> q))
      else 0)"

definition downstream_material_d :: "system \<Rightarrow> rat" where
  "downstream_material_d s =
     stored_output (m1 s) + in_flight_d (m2 s) + stored_output (m2 s) +
     (in_transit (small_truck s) + in_transit (big_truck s)) + order_quantity (client s)"

text \<open>The conservation property: what M1 has consumed is what is downstream of it.\<close>

definition conserved_d :: "system \<Rightarrow> bool" where
  "conserved_d s = (raw_material_consumed (m1 s) = downstream_material_d s)"

text \<open>
  The invariant of the runs on doubles: every quantity is non-negative, the stocks and
  the consumption are at most \<open>bound\<close>, the loads and the order at most 1, and the
  material downstream exceeds the consumption of M1 by at most \<open>drift\<close>.
\<close>

definition drift_inv :: "nat \<Rightarrow> rat \<Rightarrow> system \<Rightarrow> bool" where
  "drift_inv bound drift s =
     (wired_d s \<and> client_ok (client s) \<and> batch_ok (m1 s) \<and> batch_ok (m2 s) \<and>
      0 \<le> stored_output (m1 s) \<and> stored_output (m1 s) \<le> of_nat bound \<and>
      0 \<le> stored_output (m2 s) \<and> stored_output (m2 s) \<le> of_nat bound \<and>
      0 \<le> raw_material_consumed (m1 s) \<and> raw_material_consumed (m1 s) \<le> of_nat bound \<and>
      0 \<le> in_transit (small_truck s) \<and> in_transit (small_truck s) \<le> 1 \<and>
      0 \<le> in_transit (big_truck s) \<and> in_transit (big_truck s) \<le> 1 \<and>
      0 \<le> order_quantity (client s) \<and> order_quantity (client s) \<le> 1 \<and>
      downstream_material_d s + in_flight_d (m1 s) \<le> raw_material_consumed (m1 s) + drift)"

text \<open>The quantity a completed batch adds to \<^verbatim>\<open>stored_output\<close>, as a double.\<close>

definition yield_d :: "string \<Rightarrow> rat" where
  "yield_d outcome =
     (if outcome = ''none'' then 0
      else (case map_of size_quantity_d outcome of None \<Rightarrow> 0 | Some q \<Rightarrow> q))"

text \<open>
  The error of one rounding of a value below \<open>2^(K+1)\<close>: half the spacing \<open>2^(K-52)\<close> of
  the doubles of the binade of \<open>2^K\<close>.
\<close>

definition half_ulp :: "nat \<Rightarrow> rat" where
  "half_ulp K = 2 powi (int K - 53)"

text \<open>
  The System on doubles as its constructor leaves it when \<^verbatim>\<open>random.random()\<close> returns
  0, and a run of four commands at whose end M2 has taken a third of the unit M1
  produced.
\<close>

definition fresh_low_d :: system where
  "fresh_low_d = fresh_low\<lparr>small_truck := (small_truck fresh_low)\<lparr>capacity := double_round (1/3)\<rparr>\<rparr>"

definition thirds_run :: "(string \<times> draws) list" where
  "thirds_run =
     [(''step'', full_third), (''step'', full_third), (''step'', full_third),
      (''m2_processing_third'', full_third)]"

section \<open>Properties of double rounding and of the quantization\<close>

lemma log2_nat_bounds: "0 < n \<Longrightarrow> 2 ^ log2_nat n \<le> n \<and> n < 2 ^ (log2_nat n + 1)"
proof (induction n rule: log2_nat.induct)
  case (1 n)
  show ?case
  proof (cases "n < 2")
    case True
    with "1.prems" show ?thesis by (simp add: log2_nat.simps [of n])
  next
    case False
    then have pos: "0 < n div 2" by simp
    from "1.IH" [OF False pos] have ih: "2 ^ log2_nat (n div 2) \<le> n div 2"
      "n div 2 < 2 ^ (log2_nat (n div 2) + 1)" by simp_all
    from False have eq: "log2_nat n = Suc (log2_nat (n div 2))" by (simp add: log2_nat.simps [of n])
    from ih(1) have "2 * 2 ^ log2_nat (n div 2) \<le> n" by simp
    moreover from ih(2) have "n < 2 * 2 ^ (log2_nat (n div 2) + 1)" by simp
    ultimately show ?thesis by (simp add: eq)
  qed
qed

lemma log2_nat_unique:
  assumes "2 ^ k \<le> n" "n < 2 ^ (k + 1)"
  shows "log2_nat n = k"
proof -
  from assms(1) have pos: "0 < n" by (metis less_le_trans zero_less_numeral zero_less_power)
  note b = log2_nat_bounds [OF pos]
  have "(2::nat) ^ k < 2 ^ (log2_nat n + 1)" using assms(1) b by linarith
  then have "k < log2_nat n + 1" by (rule power_less_imp_less_exp [rotated]) simp
  moreover have "(2::nat) ^ log2_nat n < 2 ^ (k + 1)" using assms(2) b by linarith
  then have "log2_nat n < k + 1" by (rule power_less_imp_less_exp [rotated]) simp
  ultimately show ?thesis by simp
qed

lemma powi_less_cancel:
  assumes "(2::rat) powi e < 2 powi f"
  shows "e < f"
proof (rule ccontr)
  assume "\<not> e < f"
  then have "f \<le> e" by simp
  then have "(2::rat) powi f \<le> 2 powi e" by (rule power_int_increasing) simp
  with assms show False by simp
qed

lemma powi_unique:
  fixes a :: rat
  assumes "2 powi e \<le> a" "a < 2 powi (e + 1)" "2 powi e' \<le> a" "a < 2 powi (e' + 1)"
  shows "e = e'"
proof -
  have "(2::rat) powi e < 2 powi (e' + 1)" using assms by linarith
  then have "e < e' + 1" by (rule powi_less_cancel)
  moreover have "(2::rat) powi e' < 2 powi (e + 1)" using assms by linarith
  then have "e' < e + 1" by (rule powi_less_cancel)
  ultimately show ?thesis by simp
qed

lemma powi_pos [simp]: "0 < (2::rat) powi e"
  by (simp add: power_int_def)

lemma binade_spec:
  assumes "x \<noteq> 0"
  shows "2 powi binade x \<le> \<bar>x\<bar> \<and> \<bar>x\<bar> < 2 powi (binade x + 1)"
proof (cases "1 \<le> \<bar>x\<bar>")
  case True
  define n where "n = nat \<lfloor>\<bar>x\<bar>\<rfloor>"
  from True have n1: "1 \<le> \<lfloor>\<bar>x\<bar>\<rfloor>" by simp
  then have npos: "0 < n" by (simp add: n_def)
  note b = log2_nat_bounds [OF npos]
  have e: "binade x = int (log2_nat n)" using True by (simp add: binade_def n_def)
  have nle: "of_nat n \<le> \<bar>x\<bar>" using n1 by (simp add: n_def)
  have xlt: "\<bar>x\<bar> < of_nat n + 1" using n1 by (simp add: n_def) linarith
  have "(2::rat) powi binade x = of_nat (2 ^ log2_nat n)" by (simp add: e)
  also have "\<dots> \<le> of_nat n" using b by (simp only: of_nat_le_iff)
  finally have lo: "2 powi binade x \<le> \<bar>x\<bar>" using nle by simp
  from b have "n + 1 \<le> 2 ^ (log2_nat n + 1)" by simp
  then have "(of_nat (n + 1) :: rat) \<le> of_nat (2 ^ (log2_nat n + 1))" by (simp only: of_nat_le_iff)
  then have "of_nat n + 1 \<le> (2::rat) powi (binade x + 1)"
    by (simp add: e power_int_add)
  with xlt lo show ?thesis by simp
next
  case False
  define a where "a = \<bar>x\<bar>"
  from assms False have a: "0 < a" "a < 1" by (simp_all add: a_def)
  define c where "c = \<lceil>1 / a\<rceil>"
  from a have inv: "1 < 1 / a" by simp
  then have c2: "2 \<le> c" unfolding c_def by (simp add: le_ceiling_iff) 
  define m where "m = nat c - 1"
  define k where "k = log2_nat m"
  from c2 have mpos: "0 < m" by (simp add: m_def)
  from c2 have mc: "(of_nat m :: rat) = of_int c - 1"
    by (simp add: m_def of_nat_diff nat_diff_distrib)
  note b = log2_nat_bounds [OF mpos, folded k_def]
  have e: "binade x = - int k - 1" using False by (simp add: binade_def k_def m_def c_def a_def)
  have c_hi: "1 / a \<le> of_int c" unfolding c_def by (rule le_of_int_ceiling)
  have c_lo: "of_int c - 1 < 1 / a" unfolding c_def using ceiling_correct [of "1 / a"] by linarith
  from b have "(of_nat (2 ^ k) :: rat) \<le> of_nat m" by (simp only: of_nat_le_iff)
  then have "(2::rat) ^ k < 1 / a" using mc c_lo by simp
  then have "a * 2 ^ k < 1" using a by (simp add: field_simps)
  then have hi: "a < 2 powi (- int k)" by (simp add: power_int_minus field_simps)
  from b have "m + 1 \<le> 2 ^ (k + 1)" by simp
  then have "(of_nat (m + 1) :: rat) \<le> of_nat (2 ^ (k + 1))" by (simp only: of_nat_le_iff)
  then have "1 / a \<le> (2::rat) ^ (k + 1)" using mc c_hi by simp
  then have "1 \<le> a * 2 ^ (k + 1)" using a by (simp add: field_simps)
  then have lo: "2 powi (- int k - 1) \<le> a"
    by (simp add: power_int_diff power_int_minus field_simps)
  from lo hi show ?thesis unfolding e a_def by simp
qed

lemma binade_eqI:
  assumes "2 powi e \<le> \<bar>x\<bar>" "\<bar>x\<bar> < 2 powi (e + 1)"
  shows "binade x = e"
proof -
  have "0 < \<bar>x\<bar>" using assms(1) powi_pos [of e] by linarith
  then have "x \<noteq> 0" by simp
  from binade_spec [OF this] assms show ?thesis by (intro powi_unique [of _ "\<bar>x\<bar>"]) simp_all
qed

subsection \<open>round half even\<close>

lemma round_half_even_error: "\<bar>of_int (round_half_even x) - x\<bar> \<le> 1/2"
proof -
  define f where "f = \<lfloor>x\<rfloor>"
  have b: "of_int f \<le> x" "x < of_int f + 1" unfolding f_def by linarith+
  consider "x - of_int f < 1/2" | "1/2 < x - of_int f" | "x - of_int f = 1/2" by linarith
  then show ?thesis
  proof cases
    case 1
    then have "round_half_even x = f" by (simp add: round_half_even_def f_def)
    with 1 b show ?thesis by (simp add: abs_if)
  next
    case 2
    then have "round_half_even x = f + 1" by (simp add: round_half_even_def f_def)
    with 2 b show ?thesis by (simp add: abs_if)
  next
    case 3
    then have "round_half_even x = f \<or> round_half_even x = f + 1"
      by (simp add: round_half_even_def f_def Let_def)
    with 3 b show ?thesis by (auto simp: abs_if)
  qed
qed

lemma round_half_even_of_int [simp]: "round_half_even (of_int k) = k"
  by (simp add: round_half_even_def)

lemma round_half_even_between:
  "\<lfloor>x\<rfloor> \<le> round_half_even x \<and> round_half_even x \<le> \<lfloor>x\<rfloor> + 1"
  by (simp add: round_half_even_def Let_def)

lemma round_half_even_mono:
  assumes "x \<le> y"
  shows "round_half_even x \<le> round_half_even y"
proof (cases "\<lfloor>x\<rfloor> = \<lfloor>y\<rfloor>")
  case True
  with assms show ?thesis by (auto simp: round_half_even_def Let_def)
next
  case False
  with assms have "\<lfloor>x\<rfloor> + 1 \<le> \<lfloor>y\<rfloor>" using floor_mono [OF assms] by linarith
  with round_half_even_between [of x] round_half_even_between [of y] show ?thesis by linarith
qed

lemma round_half_even_ge: "of_int k \<le> x \<Longrightarrow> k \<le> round_half_even x"
  using round_half_even_mono [of "of_int k" x] by simp

lemma round_half_even_le: "x \<le> of_int k \<Longrightarrow> round_half_even x \<le> k"
  using round_half_even_mono [of x "of_int k"] by simp

subsection \<open>double rounding\<close>

lemma ulp_of_pos [simp]: "0 < ulp_of x"
  by (simp add: ulp_of_def)

lemma double_round_0 [simp]: "double_round 0 = 0"
  by (simp add: double_round_def)

lemma double_round_error: "\<bar>double_round x - x\<bar> \<le> ulp_of x / 2"
proof (cases "x = 0")
  case True
  then show ?thesis using ulp_of_pos [of 0] by (simp add: less_imp_le)
next
  case False
  define u where "u = ulp_of x"
  have u: "0 < u" by (simp add: u_def)
  have "\<bar>of_int (round_half_even (x / u)) - x / u\<bar> \<le> 1/2" by (rule round_half_even_error)
  then have "\<bar>of_int (round_half_even (x / u)) - x / u\<bar> * u \<le> 1/2 * u"
    using u by (intro mult_right_mono) simp_all
  moreover have "\<bar>of_int (round_half_even (x / u)) - x / u\<bar> * u =
      \<bar>of_int (round_half_even (x / u)) * u - x\<bar>"
    using u by (simp add: abs_mult_pos [symmetric] field_simps)
  ultimately have "\<bar>of_int (round_half_even (x / u)) * u - x\<bar> \<le> u / 2" by simp
  then show ?thesis using False by (simp add: double_round_def u_def)
qed

lemma double_round_nonneg:
  assumes "0 \<le> x"
  shows "0 \<le> double_round x"
proof (cases "x = 0")
  case True
  then show ?thesis by simp
next
  case False
  have "0 \<le> x / ulp_of x" using assms ulp_of_pos [of x] by (intro divide_nonneg_pos)
  then have "0 \<le> round_half_even (x / ulp_of x)" using round_half_even_ge [of 0] by simp
  then have "0 \<le> of_int (round_half_even (x / ulp_of x)) * ulp_of x"
    using ulp_of_pos [of x] by (intro mult_nonneg_nonneg) (simp_all add: less_imp_le)
  with False show ?thesis by (simp add: double_round_def)
qed

text \<open>A value that is an integer multiple of its own unit in the last place is exact.\<close>

lemma double_round_exact:
  assumes "x = of_int m * 2 powi k" "\<bar>m\<bar> < 2 ^ 53" "- 1074 \<le> k"
  shows "double_round x = x"
proof (cases "x = 0")
  case True
  then show ?thesis by simp
next
  case False
  have "\<bar>x\<bar> = of_int \<bar>m\<bar> * 2 powi k" by (simp add: assms(1) abs_mult)
  also have "\<dots> < of_int (2 ^ 53) * 2 powi k"
    using assms(2) by (intro mult_strict_right_mono) (simp_all only: of_int_less_iff powi_pos)
  also have "\<dots> = 2 powi (53 + k)" by (simp add: power_int_add)
  finally have "\<bar>x\<bar> < 2 powi (53 + k)" .
  with binade_spec [OF False] have "(2::rat) powi binade x < 2 powi (53 + k)" by linarith
  then have "binade x < 53 + k" by (rule powi_less_cancel)
  with assms(3) have le: "max (binade x) (- 1022) - 52 \<le> k" by simp
  define E where "E = max (binade x) (- 1022) - 52"
  define j where "j = nat (k - E)"
  from le have kj: "k = E + int j" by (simp add: j_def E_def)
  have u: "ulp_of x = 2 powi E" by (simp add: ulp_of_def E_def)
  have "x = of_int m * (2 powi E * 2 ^ j)"
    by (subst assms(1), subst kj) (simp add: power_int_add)
  then have "x / ulp_of x = of_int m * 2 ^ j" unfolding u by simp
  also have "\<dots> = of_int (m * 2 ^ j)" by simp
  finally have "x / ulp_of x = of_int (m * 2 ^ j)" .
  then have "round_half_even (x / ulp_of x) = m * 2 ^ j" by (simp only: round_half_even_of_int)
  then have "double_round x = of_int (m * 2 ^ j) * ulp_of x" using False by (simp add: double_round_def)
  also have "\<dots> = x / ulp_of x * ulp_of x" using \<open>x / ulp_of x = of_int (m * 2 ^ j)\<close> by simp
  also have "\<dots> = x" using ulp_of_pos [of x] by (simp add: less_imp_neq [THEN not_sym])
  finally show ?thesis .
qed

lemma binade_mono:
  assumes "0 < x" "x \<le> y"
  shows "binade x \<le> binade y"
proof -
  from assms have "x \<noteq> 0" "y \<noteq> 0" by simp_all
  from binade_spec [OF this(1)] binade_spec [OF this(2)] assms
  have "(2::rat) powi binade x < 2 powi (binade y + 1)" by simp
  then have "binade x < binade y + 1" by (rule powi_less_cancel)
  then show ?thesis by simp
qed

lemma pow_times_powi: "(2::rat) ^ n * 2 powi e = 2 powi (e + int n)"
  by (simp add: power_int_add)

lemma powi_div_powi: "(2::rat) powi a / 2 powi b = 2 powi (a - b)"
  by (simp add: power_int_diff)

lemma double_round_upper:
  assumes "0 < x"
  shows "double_round x \<le> 2 powi (max (binade x) (- 1022) + 1)"
proof -
  define E where "E = max (binade x) (- 1022)"
  have u: "ulp_of x = 2 powi (E - 52)" by (simp add: ulp_of_def E_def)
  from assms have nz: "x \<noteq> 0" by simp
  from binade_spec [OF nz] assms have "x < 2 powi (binade x + 1)" by simp
  also have "\<dots> \<le> 2 powi (E + 1)" by (rule power_int_increasing) (simp_all add: E_def)
  finally have "x < 2 powi (E + 1)" .
  then have "x / 2 powi (E - 52) < 2 powi (E + 1) / 2 powi (E - 52)"
    by (intro divide_strict_right_mono) simp_all
  also have "(2::rat) powi (E + 1) / 2 powi (E - 52) = 2 ^ 53"
    by (simp add: powi_div_powi)
  finally have "x / 2 powi (E - 52) \<le> of_int (2 ^ 53)" by simp
  then have "round_half_even (x / 2 powi (E - 52)) \<le> 2 ^ 53" by (rule round_half_even_le)
  then have "(of_int (round_half_even (x / 2 powi (E - 52))) :: rat) \<le> of_int (2 ^ 53)"
    by (simp only: of_int_le_iff)
  then have "of_int (round_half_even (x / 2 powi (E - 52))) * (2::rat) powi (E - 52)
      \<le> of_int (2 ^ 53) * 2 powi (E - 52)"
    by (intro mult_right_mono) (simp_all add: less_imp_le)
  also have "of_int (2 ^ 53) * 2 powi (E - 52) = (2::rat) powi (E + 1)"
    using pow_times_powi [of 53 "E - 52"] by (simp add: add.commute)
  finally show ?thesis using nz by (simp add: double_round_def u E_def)
qed

lemma double_round_lower:
  assumes "0 < x" "- 1022 \<le> binade x"
  shows "2 powi binade x \<le> double_round x"
proof -
  define E where "E = binade x"
  from assms(2) have u: "ulp_of x = 2 powi (E - 52)" by (simp add: ulp_of_def E_def max_def)
  from assms have nz: "x \<noteq> 0" by simp
  from binade_spec [OF nz] assms have "2 powi E \<le> x" by (simp add: E_def)
  then have "2 powi E / 2 powi (E - 52) \<le> x / 2 powi (E - 52)"
    by (intro divide_right_mono) (simp_all add: less_imp_le)
  moreover have "(2::rat) powi E / 2 powi (E - 52) = 2 ^ 52" by (simp add: powi_div_powi)
  ultimately have "of_int (2 ^ 52) \<le> x / 2 powi (E - 52)" by simp
  then have "2 ^ 52 \<le> round_half_even (x / 2 powi (E - 52))" by (rule round_half_even_ge)
  then have "(of_int (2 ^ 52) :: rat) \<le> of_int (round_half_even (x / 2 powi (E - 52)))"
    by (simp only: of_int_le_iff)
  then have step: "of_int (2 ^ 52) * (2::rat) powi (E - 52)
      \<le> of_int (round_half_even (x / 2 powi (E - 52))) * 2 powi (E - 52)"
    by (intro mult_right_mono) (simp_all add: less_imp_le)
  have "(2::rat) powi E = of_int (2 ^ 52) * 2 powi (E - 52)"
    using pow_times_powi [of 52 "E - 52"] by simp
  also note step
  also have "of_int (round_half_even (x / 2 powi (E - 52))) * 2 powi (E - 52) = double_round x"
    using nz by (simp add: double_round_def u)
  finally show ?thesis by (simp add: E_def)
qed

lemma double_round_mono:
  assumes "0 \<le> x" "x \<le> y"
  shows "double_round x \<le> double_round y"
proof (cases "x = 0")
  case True
  with assms show ?thesis by (simp add: double_round_nonneg)
next
  case False
  with assms have x: "0 < x" and y: "0 < y" by simp_all
  define Ex where "Ex = max (binade x) (- 1022)"
  define Ey where "Ey = max (binade y) (- 1022)"
  from binade_mono [OF x assms(2)] have le: "Ex \<le> Ey" by (simp add: Ex_def Ey_def)
  show ?thesis
  proof (cases "Ex = Ey")
    case True
    then have u: "ulp_of x = ulp_of y" by (simp add: ulp_of_def Ex_def Ey_def)
    have "x / ulp_of y \<le> y / ulp_of y" using assms(2) by (intro divide_right_mono) (simp_all add: less_imp_le)
    then have "round_half_even (x / ulp_of y) \<le> round_half_even (y / ulp_of y)"
      by (rule round_half_even_mono)
    then have "(of_int (round_half_even (x / ulp_of y)) :: rat) \<le> of_int (round_half_even (y / ulp_of y))"
      by (simp only: of_int_le_iff)
    then have "of_int (round_half_even (x / ulp_of y)) * ulp_of y
        \<le> of_int (round_half_even (y / ulp_of y)) * ulp_of y"
      by (intro mult_right_mono) (simp_all add: less_imp_le)
    with x y show ?thesis by (simp add: double_round_def u)
  next
    case False
    with le have lt: "Ex < Ey" by simp
    then have bin_y: "binade y = Ey" "- 1022 \<le> binade y" by (simp_all add: Ey_def Ex_def max_def split: if_splits)
    have "double_round x \<le> 2 powi (Ex + 1)" using double_round_upper [OF x] by (simp add: Ex_def)
    also have "\<dots> \<le> 2 powi Ey" using lt by (intro power_int_increasing) simp_all
    also have "\<dots> \<le> double_round y" using double_round_lower [OF y bin_y(2)] by (simp add: bin_y(1))
    finally show ?thesis .
  qed
qed

subsection \<open>Evaluating on numerals\<close>

lemma floor_rat_numeral_div [simp]:
  "\<lfloor>numeral a / numeral b :: rat\<rfloor> = numeral a div numeral b"
  using floor_divide_of_int_eq [of "numeral a" "numeral b", where ?'a = rat] by simp

lemma double_round_eval:
  assumes "2 powi e \<le> \<bar>x\<bar>" "\<bar>x\<bar> < 2 powi (e + 1)" "- 1022 \<le> e"
  shows "double_round x = of_int (round_half_even (x / 2 powi (e - 52))) * 2 powi (e - 52)"
proof -
  have e: "binade x = e" using assms(1,2) by (rule binade_eqI)
  have "0 < \<bar>x\<bar>" using assms(1) powi_pos [of e] by linarith
  then have "x \<noteq> 0" by simp
  with e assms(3) show ?thesis by (simp add: double_round_def ulp_of_def max_def)
qed

lemma third_d: "double_round (1/3) = 6004799503160661 / 18014398509481984"
  by (subst double_round_eval [where e = "- 2"]) (simp_all add: round_half_even_def Let_def)

lemma half_plus_third_d: "double_round (1/2 + 6004799503160661 / 18014398509481984) = 3752999689475413 / 4503599627370496"
  by (subst double_round_eval [where e = "- 1"]) (simp_all add: round_half_even_def Let_def)

lemma times6_d: "double_round (3752999689475413 / 4503599627370496 * 6) = 5"
  by (subst double_round_eval [where e = "2"]) (simp_all add: round_half_even_def Let_def)


lemma double_round_error_bound:
  assumes "\<bar>x\<bar> < 2 powi (k + 1)" "- 1022 \<le> k"
  shows "\<bar>double_round x - x\<bar> \<le> 2 powi (k - 53)"
proof (cases "x = 0")
  case True
  then show ?thesis by (simp add: less_imp_le)
next
  case False
  from binade_spec [OF False] assms(1) have "(2::rat) powi binade x < 2 powi (k + 1)" by linarith
  then have "binade x < k + 1" by (rule powi_less_cancel)
  with assms(2) have "max (binade x) (- 1022) - 52 \<le> k - 52" by simp
  then have "ulp_of x \<le> 2 powi (k - 52)"
    unfolding ulp_of_def by (intro power_int_increasing) simp_all
  then have "ulp_of x / 2 \<le> 2 powi (k - 52) / 2" by simp
  also have "(2::rat) powi (k - 52) / 2 = 2 powi (k - 53)"
    using powi_div_powi [of "k - 52" 1] by simp
  finally show ?thesis using double_round_error [of x] by linarith
qed

lemma double_round_of_int:
  assumes "\<bar>m\<bar> < 2 ^ 53"
  shows "double_round (of_int m) = of_int m"
  using double_round_exact [of "of_int m" m 0] assms by simp
















section \<open>Properties of the Client\<close>




lemma placed_client_eq:
  "placed_client =
     \<lparr> c_state = Order_placed, priority_distribution = default_priority_distribution,
       order_penalties = default_order_penalties,
       time_passed = 0, order_quantity = 0, current_payment = 0,
       current_priority = Some ''low'', time_limit = Some 20,
       in_time_payment = Some 5, out_of_time_payment = Some 1 \<rparr>"
  by (simp add: placed_client_def place_order_def Client_init_def
        default_priority_distribution_def default_order_penalties_def)



lemma client_inv_reset: "client_inv (client_reset c)"
  by (simp add: client_inv_def client_reset_def)

lemma client_inv_init: "client_inv (Client_init pd pen)"
  by (simp add: client_inv_def Client_init_def)

lemma client_ok_reset: "client_ok (client_reset c)"
  by (simp add: client_ok_def client_reset_def)

lemma client_ok_init: "client_ok (Client_init pd pen)"
  by (simp add: client_ok_def Client_init_def)

lemma place_order_inv:
  "client_inv c \<Longrightarrow> client_inv (snd (place_order rv c)) \<and>
     order_quantity c \<le> order_quantity (snd (place_order rv c))"
  by (auto simp: client_inv_def place_order_def Let_def split: option.splits client_state.splits)

lemma quantity_shipped_inv:
  "client_inv c \<Longrightarrow> client_inv (snd (quantity_shipped q c)) \<and>
     order_quantity c \<le> order_quantity (snd (quantity_shipped q c))"
  by (auto simp: client_inv_def quantity_shipped_def Let_def split: option.splits client_state.splits)

lemma step_time_inv:
  "client_inv c \<Longrightarrow> client_inv (snd (step_time c)) \<and>
     order_quantity c \<le> order_quantity (snd (step_time c))"
  by (auto simp: client_inv_def step_time_def Let_def split: option.splits client_state.splits)

lemma client_apply_inv:
  "client_inv c \<Longrightarrow> client_inv (client_apply x c) \<and> order_quantity c \<le> order_quantity (client_apply x c)"
  by (cases x) (simp_all add: place_order_inv quantity_shipped_inv step_time_inv)

lemma place_order_ok: "client_ok c \<Longrightarrow> client_ok (snd (place_order rv c))"
  by (auto simp: client_ok_def order_params_set_def place_order_def Let_def split: option.splits)

lemma quantity_shipped_ok: "client_ok c \<Longrightarrow> client_ok (snd (quantity_shipped q c))"
  by (auto simp: client_ok_def order_params_set_def quantity_shipped_def Let_def split: option.splits)

lemma step_time_ok: "client_ok c \<Longrightarrow> client_ok (snd (step_time c))"
  by (auto simp: client_ok_def order_params_set_def step_time_def Let_def split: option.splits)

lemma client_apply_ok: "client_ok c \<Longrightarrow> client_ok (client_apply x c)"
  by (cases x) (simp_all add: place_order_ok quantity_shipped_ok step_time_ok)

lemma client_trace_ok: "client_ok c \<Longrightarrow> c' \<in> set (client_trace xs c) \<Longrightarrow> client_ok c'"
  by (induction xs arbitrary: c) (auto dest: client_apply_ok)

lemma client_trace_hd: "\<exists>rest. client_trace xs c = c # rest"
  by (cases xs) simp_all

lemma client_trace_inv:
  "client_inv c \<Longrightarrow>
     sorted (map order_quantity (client_trace xs c)) \<and>
     (\<forall>c' \<in> set (client_trace xs c). client_inv c')"
proof (induction xs arbitrary: c)
  case Nil
  then show ?case by simp
next
  case (Cons x xs)
  let ?c1 = "client_apply x c"
  from Cons.prems have inv1: "client_inv ?c1" and le: "order_quantity c \<le> order_quantity ?c1"
    by (simp_all add: client_apply_inv)
  from Cons.IH [OF inv1] have srt: "sorted (map order_quantity (client_trace xs ?c1))"
    and all: "\<forall>c' \<in> set (client_trace xs ?c1). client_inv c'" by simp_all
  obtain rest where tr: "client_trace xs ?c1 = ?c1 # rest" using client_trace_hd by blast
  from srt le tr have "sorted (map order_quantity (c # client_trace xs ?c1))"
    by auto
  with all Cons.prems show ?case by simp
qed

lemma client_inv_facts:
  "client_inv c \<Longrightarrow> order_quantity c \<le> 1 \<and> (c_state c = Completed \<longleftrightarrow> order_quantity c = 1)"
  by (auto simp: client_inv_def split: client_state.splits)

text \<open>
  C7. Along every sequence of Client operations that starts at a reset or at the
  construction and contains no reset, \<^verbatim>\<open>order_quantity\<close> never decreases from one
  visited state to the next, never exceeds 1, and the state is \<^verbatim>\<open>completed\<close> exactly
  when \<^verbatim>\<open>order_quantity\<close> is 1.
\<close>

theorem order_quantity_monotone_bounded:
  assumes "c0 = client_reset c \<or> c0 = Client_init pd pen"
  shows "sorted (map order_quantity (client_trace xs c0)) \<and>
         (\<forall>c' \<in> set (client_trace xs c0).
            order_quantity c' \<le> 1 \<and> (c_state c' = Completed \<longleftrightarrow> order_quantity c' = 1))"
proof -
  from assms have "client_inv c0" using client_inv_reset client_inv_init by auto
  then show ?thesis using client_trace_inv client_inv_facts by blast
qed


theorem order_quantity_monotone_bounded_witness:
  "sorted (map order_quantity
      (client_trace [Place_order 0, Quantity_shipped (1/3), Step_time, Quantity_shipped 1,
                     Quantity_shipped (2/3), Place_order 0]
         (Client_init default_priority_distribution default_order_penalties))) \<and>
   map order_quantity
      (client_trace [Place_order 0, Quantity_shipped (1/3), Step_time, Quantity_shipped 1,
                     Quantity_shipped (2/3), Place_order 0]
         (Client_init default_priority_distribution default_order_penalties)) =
     [0, 0, 1/3, 1/3, 1/3, 1, 1] \<and>
   map c_state
      (client_trace [Place_order 0, Quantity_shipped (1/3), Step_time, Quantity_shipped 1,
                     Quantity_shipped (2/3), Place_order 0]
         (Client_init default_priority_distribution default_order_penalties)) =
     [C_idle, Order_placed, Wait_for_completion, Wait_for_completion, Wait_for_completion,
      Completed, Completed]"
  using order_quantity_monotone_bounded
    [of "Client_init default_priority_distribution default_order_penalties"
        "Client_init default_priority_distribution default_order_penalties"
        default_priority_distribution default_order_penalties
        "[Place_order 0, Quantity_shipped (1/3), Step_time, Quantity_shipped 1,
          Quantity_shipped (2/3), Place_order 0]"]
  by (simp add: Client_init_def default_priority_distribution_def default_order_penalties_def
        place_order_def quantity_shipped_def step_time_def Let_def)

section \<open>Properties of the Machine\<close>

lemma possible_outcomes_default:
  assumes "default_machine_config m" "current_batch_size m = Some b" "b \<in> {''full'', ''half'', ''third''}"
  shows "possible_outcomes m =
           (if b = ''full'' then [''full'', ''half'', ''third'', ''none'']
            else if b = ''half'' then [''half'', ''third'', ''none'']
            else [''third'', ''none''])"
  using assms
  by (auto simp: possible_outcomes_def outcome_table_def default_machine_config_def
        default_success_probabilities_def default_maintenance_effect_def)



lemma outcome_table_time [simp]:
  "outcome_table (m\<lparr>m_time_remaining := x\<rparr>) = outcome_table m"
  by (simp add: outcome_table_def)




section \<open>Properties of the requests in a wired System\<close>


lemma processing_times_valid:
  "b \<in> {''full'', ''half'', ''third''} \<Longrightarrow> \<exists>t. map_of default_processing_times b = Some t"
  by (auto simp: default_processing_times_def)





lemma in_flight_simps [simp]:
  "in_flight (m\<lparr>raw_material_consumed := x\<rparr>) = in_flight m"
  "in_flight (m\<lparr>stored_output := y\<rparr>) = in_flight m"
  "in_flight (m\<lparr>m_time_remaining := z\<rparr>) = in_flight m"
  by (simp_all add: in_flight_def)








section \<open>Properties of one tick of a Truck\<close>

lemma client_put_truck [simp]: "client (put_truck r t s) = client s"
  by (cases r) simp_all

lemma truck_of_put_truck [simp]: "truck_of r (put_truck r t s) = t"
  by (cases r) simp_all







section \<open>Properties of one tick of the System\<close>






section \<open>The invariant of the reachable states\<close>

lemma place_order_default:
  assumes "c_state c = C_idle" "priority_distribution c = default_priority_distribution"
    "order_penalties c = default_order_penalties" "0 \<le> rv" "rv < 1"
  shows "\<exists>p deadline itp otp.
           p \<in> {''low'', ''medium'', ''high''} \<and>
           place_order rv c =
             (Inr p,
              c\<lparr>current_priority := Some p, time_limit := Some deadline, in_time_payment := Some itp,
                out_of_time_payment := Some otp, c_state := Order_placed, time_passed := 0,
                order_quantity := 0, current_payment := 0\<rparr>)"
proof -
  consider "rv \<le> 4/10" | "\<not> rv \<le> 4/10" "rv \<le> 9/10" | "\<not> rv \<le> 4/10" "\<not> rv \<le> 9/10"
    by blast
  then show ?thesis
  proof cases
    case 1
    with assms have "place_order rv c =
             (Inr ''low'',
              c\<lparr>current_priority := Some ''low'', time_limit := Some 20, in_time_payment := Some 5,
                out_of_time_payment := Some 1, c_state := Order_placed, time_passed := 0,
                order_quantity := 0, current_payment := 0\<rparr>)"
      by (simp add: place_order_def default_priority_distribution_def default_order_penalties_def)
    then show ?thesis by blast
  next
    case 2
    with assms have "place_order rv c =
             (Inr ''medium'',
              c\<lparr>current_priority := Some ''medium'', time_limit := Some 15, in_time_payment := Some 10,
                out_of_time_payment := Some 2, c_state := Order_placed, time_passed := 0,
                order_quantity := 0, current_payment := 0\<rparr>)"
      by (simp add: place_order_def default_priority_distribution_def default_order_penalties_def)
    then show ?thesis by blast
  next
    case 3
    with assms have "place_order rv c =
             (Inr ''high'',
              c\<lparr>current_priority := Some ''high'', time_limit := Some 10, in_time_payment := Some 15,
                out_of_time_payment := Some 1, c_state := Order_placed, time_passed := 0,
                order_quantity := 0, current_payment := 0\<rparr>)"
      by (simp add: place_order_def default_priority_distribution_def default_order_penalties_def)
    then show ?thesis by blast
  qed
qed



lemma get_state_ok:
  assumes "client_ok (client s)"
  shows "\<exists>ob. get_state s = Inr ob"
proof -
  from assms have "\<exists>ttp. time_to_penalty_of (client s) = Inr ttp"
    by (auto simp: time_to_penalty_of_def client_ok_def order_params_set_def)
  then show ?thesis by (auto simp: get_state_def)
qed




section \<open>Material accounting\<close>


lemmas eval_defs =
  fresh_low_def placed_client_eq half_third_def three_steps_def
  Machine_init_def Truck_init_def Client_init_def
  default_priority_distribution_def default_order_penalties_def default_processing_times_def
  default_success_probabilities_def default_maintenance_effect_def size_quantity_def
  action_def action_methods_def system_step_def system_reset_def
  m1_processing_third_def m1_processing_half_def m1_processing_full_def m1_maintenance_def
  m2_processing_third_def m2_processing_half_def m2_processing_full_def m2_maintenance_def
  small_truck_shipment_def big_truck_shipment_def
  request_processing_def start_processing_def request_maintenance_def request_shipment_def
  retrieve_quantity_def machine_step_def outcome_table_def truck_step_def
  quantity_shipped_def step_time_def place_order_def
  machine_reset_def truck_reset_def client_reset_def Let_def

lemma run3: "run three_steps fresh_low =
   fresh_low\<lparr>m1 := (m1 fresh_low)\<lparr>m_time_remaining := 0, stored_output := 1/2, m_state := M_idle,
                                     current_batch_size := None\<rparr>,
             client := (client fresh_low)\<lparr>time_passed := 3\<rparr>\<rparr>"
  by (simp add: eval_defs)


text \<open>
  C1. A request that fails for lack of upstream material is meant to leave the
  upstream machine's \<^verbatim>\<open>stored_output\<close> as it was. \<^verbatim>\<open>request_processing\<close> retrieves
  before it compares: with 1/2 stored in M1 and M2 idle, a full-batch request on M2
  returns \<^verbatim>\<open>False\<close> and leaves M1 with nothing.
\<close>

theorem failed_request_drains_upstream:
  "source_machine (m2 (run three_steps fresh_low)) = Some M1 \<and>
   m_state (m2 (run three_steps fresh_low)) = M_idle \<and>
   stored_output (m1 (run three_steps fresh_low)) = 1/2 \<and>
   fst (request_processing M2 ''full'' (run three_steps fresh_low)) = Inr False \<and>
   stored_output (m1 (snd (request_processing M2 ''full'' (run three_steps fresh_low)))) = 0"
  unfolding run3 by (simp add: eval_defs)

section \<open>Material accounting on doubles\<close>

text \<open>
  Every command rounds at most four of the sums the accounting reads: one per machine
  and one per truck in a tick, one in a request. While the stocks and the consumption
  stay below \<open>2^K\<close>, one rounding moves a sum by at most \<open>half_ulp K\<close>.
\<close>

lemma half_ulp_pos [simp]: "0 < half_ulp K"
  by (simp add: half_ulp_def)

lemma round_bounded:
  assumes "0 \<le> x" "x \<le> of_nat N" "N \<le> 2 ^ K" "K \<le> 52"
  shows "0 \<le> double_round x" "double_round x \<le> of_nat N"
    "double_round x \<le> x + half_ulp K" "x \<le> double_round x + half_ulp K"
proof -
  show "0 \<le> double_round x" using assms(1) by (rule double_round_nonneg)
  have "(2::nat) ^ K \<le> 2 ^ 52" using assms(4) by (intro power_increasing) simp_all
  with assms(3) have N: "N \<le> 2 ^ 52" by simp
  then have "\<bar>int N\<bar> < 2 ^ 53" by simp
  from double_round_of_int [OF this] have ex: "double_round (of_nat N) = of_nat N" by simp
  from double_round_mono [OF assms(1,2)] ex show "double_round x \<le> of_nat N" by simp
  have "x \<le> of_nat (2 ^ K)" using assms(2,3) by (meson of_nat_mono order_trans)
  then have "x \<le> 2 ^ K" by simp
  also have "(2::rat) ^ K < 2 ^ (K + 1)" by simp
  also have "(2::rat) ^ (K + 1) = 2 powi (int K + 1)"
    by (simp add: power_int_add)
  finally have "\<bar>x\<bar> < 2 powi (int K + 1)" using assms(1) by simp
  from double_round_error_bound [OF this] have "\<bar>double_round x - x\<bar> \<le> half_ulp K"
    by (simp add: half_ulp_def)
  then show "double_round x \<le> x + half_ulp K" "x \<le> double_round x + half_ulp K"
    by linarith+
qed

lemma third_bounds: "0 < double_round (1/3)" "double_round (1/3) \<le> 1/2"
  by (simp_all add: third_d)

lemma yield_d_simps:
  "yield_d ''none'' = 0" "yield_d ''full'' = 1" "yield_d ''half'' = 1/2"
  "yield_d ''third'' = double_round (1/3)"
  by (simp_all add: yield_d_def size_quantity_d_def)

lemma in_flight_d_of_batch:
  "m_state m = Processing \<Longrightarrow> current_batch_size m = Some b \<Longrightarrow> b \<in> {''full'', ''half'', ''third''} \<Longrightarrow>
   in_flight_d m = yield_d b"
  by (auto simp: in_flight_d_def yield_d_def size_quantity_d_def)

lemma yield_d_bounded:
  assumes "batch_ok m" "default_machine_config m" "valid_outcome outcome m" "m_state m = Processing"
  shows "outcome \<in> {''none'', ''full'', ''half'', ''third''} \<and> 0 \<le> yield_d outcome \<and>
         yield_d outcome \<le> in_flight_d m \<and> in_flight_d m \<le> 1"
proof -
  from assms(1,4) obtain b where b: "current_batch_size m = Some b" "b \<in> {''full'', ''half'', ''third''}"
    by (auto simp: batch_ok_def)
  from assms(3,4) have out: "outcome \<in> set (possible_outcomes m)"
    by (simp add: valid_outcome_def)
  note fl = in_flight_d_of_batch [OF assms(4) b]
  note tb = third_bounds
  from b(2) consider "b = ''full''" | "b = ''half''" | "b = ''third''" by auto
  then show ?thesis
  proof cases
    case 1
    with out possible_outcomes_default [OF assms(2) b]
    have "outcome = ''full'' \<or> outcome = ''half'' \<or> outcome = ''third'' \<or> outcome = ''none''"
      by simp
    moreover have "in_flight_d m = 1" using fl 1 by (simp add: yield_d_simps)
    ultimately show ?thesis using tb by (elim disjE) (simp_all add: yield_d_simps)
  next
    case 2
    with out possible_outcomes_default [OF assms(2) b]
    have "outcome = ''half'' \<or> outcome = ''third'' \<or> outcome = ''none''"
      by simp
    moreover have "in_flight_d m = 1/2" using fl 2 by (simp add: yield_d_simps)
    ultimately show ?thesis using tb by (elim disjE) (simp_all add: yield_d_simps)
  next
    case 3
    with out possible_outcomes_default [OF assms(2) b]
    have "outcome = ''third'' \<or> outcome = ''none''"
      by simp
    moreover have "in_flight_d m = double_round (1/3)" using fl 3 by (simp add: yield_d_simps)
    ultimately show ?thesis using tb by (elim disjE) (simp_all add: yield_d_simps)
  qed
qed

lemma machine_step_d_processing_done:
  assumes "batch_ok m" "default_machine_config m" "valid_outcome outcome m"
    "m_state m = Processing" "m_time_remaining m - 1 \<le> 0"
  shows "machine_step_d outcome m =
           (Inr True,
            if outcome = ''none'' then
              m\<lparr>m_time_remaining := m_time_remaining m - 1, m_state := M_idle, current_batch_size := None\<rparr>
            else
              m\<lparr>m_time_remaining := m_time_remaining m - 1,
                stored_output := double_round (stored_output m + yield_d outcome),
                m_state := M_idle, current_batch_size := None\<rparr>)"
proof -
  from assms(1,4) obtain b where b: "current_batch_size m = Some b" "b \<in> {''full'', ''half'', ''third''}"
    by (auto simp: batch_ok_def)
  have "\<exists>p. map_of (outcome_table m) b = Some p"
    using assms(2) b
    by (cases "maintenance_active m")
       (auto simp: outcome_table_def default_machine_config_def
          default_success_probabilities_def default_maintenance_effect_def)
  then obtain probabilities where tab: "map_of (outcome_table m) b = Some probabilities" ..
  from yield_d_bounded [OF assms(1-4)]
  have "outcome = ''none'' \<or> outcome = ''full'' \<or> outcome = ''half'' \<or> outcome = ''third''" by simp
  then show ?thesis
    using assms(4,5) b(1) tab
    by (elim disjE)
       (simp_all add: machine_step_d_def Let_def yield_d_simps size_quantity_d_def)
qed

lemma machine_step_d_cases:
  assumes "batch_ok m" "default_machine_config m" "valid_outcome outcome m"
  shows "(m_state m = Processing \<and> m_time_remaining m - 1 \<le> 0 \<and> outcome \<noteq> ''none'' \<and>
             machine_step_d outcome m =
               (Inr True, m\<lparr>m_time_remaining := m_time_remaining m - 1,
                             stored_output := double_round (stored_output m + yield_d outcome),
                             m_state := M_idle, current_batch_size := None\<rparr>)) \<or>
         (m_state m = Processing \<and> m_time_remaining m - 1 \<le> 0 \<and> outcome = ''none'' \<and>
             machine_step_d outcome m =
               (Inr True, m\<lparr>m_time_remaining := m_time_remaining m - 1,
                             m_state := M_idle, current_batch_size := None\<rparr>)) \<or>
         (m_state m = Processing \<and> \<not> m_time_remaining m - 1 \<le> 0 \<and>
            machine_step_d outcome m = (Inr False, m\<lparr>m_time_remaining := m_time_remaining m - 1\<rparr>)) \<or>
         (m_state m = Maintenance \<and> m_time_remaining m - 1 \<le> 0 \<and>
            machine_step_d outcome m =
              (Inr True, m\<lparr>m_time_remaining := m_time_remaining m - 1,
                            maintenance_active := True, m_state := M_idle\<rparr>)) \<or>
         (m_state m = Maintenance \<and> \<not> m_time_remaining m - 1 \<le> 0 \<and>
            machine_step_d outcome m = (Inr False, m\<lparr>m_time_remaining := m_time_remaining m - 1\<rparr>)) \<or>
         (m_state m = M_idle \<and> machine_step_d outcome m = (Inr False, m))"
proof (cases "m_state m")
  case M_idle
  then show ?thesis by (simp add: machine_step_d_def)
next
  case Maintenance
  then show ?thesis by (simp add: machine_step_d_def Let_def)
next
  case Processing
  show ?thesis
  proof (cases "m_time_remaining m - 1 \<le> 0")
    case False
    with Processing show ?thesis by (simp add: machine_step_d_def Let_def)
  next
    case True
    with Processing machine_step_d_processing_done [OF assms Processing True] show ?thesis
      by (cases "outcome = ''none''") simp_all
  qed
qed

lemma in_flight_d_simps [simp]:
  "in_flight_d (m\<lparr>raw_material_consumed := x\<rparr>) = in_flight_d m"
  "in_flight_d (m\<lparr>stored_output := y\<rparr>) = in_flight_d m"
  "in_flight_d (m\<lparr>m_time_remaining := z\<rparr>) = in_flight_d m"
  by (simp_all add: in_flight_d_def)

text \<open>
  One tick of a machine adds to what the machine holds at most the error of one
  rounding.
\<close>

lemma machine_step_d_held:
  assumes "batch_ok m" "default_machine_config m" "valid_outcome outcome m"
    "0 \<le> stored_output m" "stored_output m \<le> of_nat B" "Suc B \<le> 2 ^ K" "K \<le> 52"
  shows "batch_ok (snd (machine_step_d outcome m))"
    and "default_machine_config (snd (machine_step_d outcome m))"
    and "source_machine (snd (machine_step_d outcome m)) = source_machine m"
    and "raw_material_consumed (snd (machine_step_d outcome m)) = raw_material_consumed m"
    and "0 \<le> stored_output (snd (machine_step_d outcome m))"
    and "stored_output (snd (machine_step_d outcome m)) \<le> of_nat (Suc B)"
    and "stored_output (snd (machine_step_d outcome m)) + in_flight_d (snd (machine_step_d outcome m))
           \<le> stored_output m + in_flight_d m + half_ulp K"
proof -
  have yb: "m_state m = Processing \<Longrightarrow>
      0 \<le> yield_d outcome \<and> yield_d outcome \<le> in_flight_d m \<and> in_flight_d m \<le> 1"
    using yield_d_bounded [OF assms(1-3)] by simp
  have rb: "m_state m = Processing \<Longrightarrow>
      0 \<le> double_round (stored_output m + yield_d outcome) \<and>
      double_round (stored_output m + yield_d outcome) \<le> of_nat (Suc B) \<and>
      double_round (stored_output m + yield_d outcome) \<le> stored_output m + yield_d outcome + half_ulp K"
  proof -
    assume "m_state m = Processing"
    from yb [OF this] assms(4,5) have "0 \<le> stored_output m + yield_d outcome"
      "stored_output m + yield_d outcome \<le> of_nat (Suc B)" by simp_all
    from round_bounded(1-3) [OF this assms(6,7)] show ?thesis by simp
  qed
  have le: "stored_output m \<le> of_nat (Suc B)" using assms(5) by simp
  have fl0: "0 \<le> in_flight_d m"
    using yb by (cases "m_state m = Processing") (auto simp: in_flight_d_def)
  note c = machine_step_d_cases [OF assms(1-3)]
  show "batch_ok (snd (machine_step_d outcome m))"
    using c assms(1) by (auto simp: batch_ok_def)
  show "default_machine_config (snd (machine_step_d outcome m))"
    using c assms(2) by (auto simp: default_machine_config_def)
  show "source_machine (snd (machine_step_d outcome m)) = source_machine m"
    using c by auto
  show "raw_material_consumed (snd (machine_step_d outcome m)) = raw_material_consumed m"
    using c by auto
  show "0 \<le> stored_output (snd (machine_step_d outcome m))"
    using c assms(4) rb by auto
  show "stored_output (snd (machine_step_d outcome m)) \<le> of_nat (Suc B)"
    using c le rb by auto
  have hp: "0 \<le> half_ulp K" by (simp add: less_imp_le)
  show "stored_output (snd (machine_step_d outcome m)) + in_flight_d (snd (machine_step_d outcome m))
           \<le> stored_output m + in_flight_d m + half_ulp K"
    using c
  proof (elim disjE conjE)
    assume a: "m_state m = Processing" "outcome \<noteq> ''none''"
      and eq: "machine_step_d outcome m =
               (Inr True, m\<lparr>m_time_remaining := m_time_remaining m - 1,
                             stored_output := double_round (stored_output m + yield_d outcome),
                             m_state := M_idle, current_batch_size := None\<rparr>)"
    from yb [OF a(1)] rb [OF a(1)] show ?thesis unfolding eq by (simp add: in_flight_d_def)
  next
    assume a: "m_state m = Processing" "outcome = ''none''"
      and eq: "machine_step_d outcome m =
               (Inr True, m\<lparr>m_time_remaining := m_time_remaining m - 1,
                             m_state := M_idle, current_batch_size := None\<rparr>)"
    have "in_flight_d (m\<lparr>m_time_remaining := m_time_remaining m - 1,
                             m_state := M_idle, current_batch_size := None\<rparr>) = 0"
      by (simp add: in_flight_d_def)
    with fl0 hp show ?thesis unfolding eq by (simp add: add_nonneg_nonneg)
  qed (use hp in \<open>simp_all add: in_flight_d_def\<close>)
qed


lemma size_quantity_d_valid:
  "b \<in> {''full'', ''half'', ''third''} \<Longrightarrow>
   map_of size_quantity_d b = Some (yield_d b) \<and> 0 < yield_d b \<and> yield_d b \<le> 1"
  using third_bounds by (auto simp: size_quantity_d_def yield_d_def)

lemma drift_inv_mono:
  "drift_inv B a s \<Longrightarrow> B \<le> B' \<Longrightarrow> a \<le> a' \<Longrightarrow> drift_inv B' a' s"
proof -
  assume inv: "drift_inv B a s" and B: "B \<le> B'" and a: "a \<le> a'"
  from B have "(of_nat B :: rat) \<le> of_nat B'" by simp
  with inv a show ?thesis unfolding drift_inv_def by (elim conjE) (intro conjI; linarith?; assumption?)
qed

lemma request_processing_d_M1:
  assumes "wired_d s" "b \<in> {''full'', ''half'', ''third''}"
  shows "\<exists>t. map_of default_processing_times b = Some t \<and>
         request_processing_d M1 b s =
           (if m_state (m1 s) \<noteq> M_idle then (Inr False, s)
            else (Inr True,
                  s\<lparr>m1 := (m1 s)\<lparr>raw_material_consumed :=
                                     double_round (raw_material_consumed (m1 s) + yield_d b),
                                   m_state := Processing, current_batch_size := Some b,
                                   m_time_remaining := t\<rparr>\<rparr>))"
proof -
  from processing_times_valid [OF assms(2)] obtain t where t: "map_of default_processing_times b = Some t" ..
  from assms(1) have src: "source_machine (m1 s) = None" and pt: "processing_times (m1 s) = default_processing_times"
    by (simp_all add: wired_d_def default_machine_config_def)
  from size_quantity_d_valid [OF assms(2)] have sq: "map_of size_quantity_d b = Some (yield_d b)" by simp
  have "request_processing_d M1 b s =
           (if m_state (m1 s) \<noteq> M_idle then (Inr False, s)
            else (Inr True,
                  s\<lparr>m1 := (m1 s)\<lparr>raw_material_consumed :=
                                     double_round (raw_material_consumed (m1 s) + yield_d b),
                                   m_state := Processing, current_batch_size := Some b,
                                   m_time_remaining := t\<rparr>\<rparr>))"
    using assms(2) src pt sq t
    by (simp add: request_processing_d_def start_processing_def Let_def)
  with t show ?thesis by blast
qed

lemma request_processing_d_M2:
  assumes "wired_d s" "b \<in> {''full'', ''half'', ''third''}"
  shows "\<exists>t. map_of default_processing_times b = Some t \<and>
         request_processing_d M2 b s =
           (if m_state (m2 s) \<noteq> M_idle then (Inr False, s)
            else if stored_output (m1 s) < yield_d b then
              (Inr False, s\<lparr>m1 := (m1 s)\<lparr>stored_output := 0\<rparr>\<rparr>)
            else (Inr True,
                  s\<lparr>m1 := (m1 s)\<lparr>stored_output := double_round (stored_output (m1 s) - yield_d b)\<rparr>,
                    m2 := (m2 s)\<lparr>m_state := Processing, current_batch_size := Some b,
                                   m_time_remaining := t\<rparr>\<rparr>))"
proof -
  from processing_times_valid [OF assms(2)] obtain t where t: "map_of default_processing_times b = Some t" ..
  from assms(1) have src: "source_machine (m2 s) = Some M1" and pt: "processing_times (m2 s) = default_processing_times"
    by (simp_all add: wired_d_def default_machine_config_def)
  from size_quantity_d_valid [OF assms(2)] have sq: "map_of size_quantity_d b = Some (yield_d b)" by simp
  have "request_processing_d M2 b s =
           (if m_state (m2 s) \<noteq> M_idle then (Inr False, s)
            else if stored_output (m1 s) < yield_d b then
              (Inr False, s\<lparr>m1 := (m1 s)\<lparr>stored_output := 0\<rparr>\<rparr>)
            else (Inr True,
                  s\<lparr>m1 := (m1 s)\<lparr>stored_output := double_round (stored_output (m1 s) - yield_d b)\<rparr>,
                    m2 := (m2 s)\<lparr>m_state := Processing, current_batch_size := Some b,
                                   m_time_remaining := t\<rparr>\<rparr>))"
    using assms(2) src pt sq t
    by (simp add: request_processing_d_def start_processing_def retrieve_quantity_d_def Let_def min_def)
  with t show ?thesis by blast
qed

lemma in_flight_d_started:
  "b \<in> {''full'', ''half'', ''third''} \<Longrightarrow>
   in_flight_d (m\<lparr>m_state := Processing, current_batch_size := Some b, m_time_remaining := t\<rparr>) = yield_d b"
  by (auto simp: in_flight_d_def size_quantity_d_def yield_d_def)

lemma in_flight_d_idle: "m_state m = M_idle \<Longrightarrow> in_flight_d m = 0"
  by (simp add: in_flight_d_def)

lemma request_processing_d_M1_inv:
  assumes "drift_inv B a s" "b \<in> {''full'', ''half'', ''third''}" "Suc B \<le> 2 ^ K" "K \<le> 52"
  shows "drift_inv (Suc B) (a + half_ulp K) (snd (request_processing_d M1 b s))"
proof -
  from assms(1) have w: "wired_d s" by (simp add: drift_inv_def)
  from request_processing_d_M1 [OF w assms(2)] obtain t where
    eq: "request_processing_d M1 b s =
           (if m_state (m1 s) \<noteq> M_idle then (Inr False, s)
            else (Inr True,
                  s\<lparr>m1 := (m1 s)\<lparr>raw_material_consumed :=
                                     double_round (raw_material_consumed (m1 s) + yield_d b),
                                   m_state := Processing, current_batch_size := Some b,
                                   m_time_remaining := t\<rparr>\<rparr>))" by blast
  show ?thesis
  proof (cases "m_state (m1 s) = M_idle")
    case False
    with eq have "snd (request_processing_d M1 b s) = s" by simp
    with drift_inv_mono [OF assms(1), of "Suc B" "a + half_ulp K"] show ?thesis
      by (simp add: less_imp_le)
  next
    case True
    let ?c = "raw_material_consumed (m1 s) + yield_d b"
    have fl: "in_flight_d ((m1 s)\<lparr>raw_material_consumed := double_round ?c,
                                   m_state := Processing, current_batch_size := Some b,
                                   m_time_remaining := t\<rparr>) = yield_d b"
      using in_flight_d_started [OF assms(2), where m = "(m1 s)\<lparr>raw_material_consumed := double_round ?c\<rparr>" and t = t]
      by simp
    from True have fl0: "in_flight_d (m1 s) = 0" by (rule in_flight_d_idle)
    from size_quantity_d_valid [OF assms(2)] have y: "0 < yield_d b" "yield_d b \<le> 1" by simp_all
    from assms(1) have c: "0 \<le> raw_material_consumed (m1 s)" "raw_material_consumed (m1 s) \<le> of_nat B"
      by (simp_all add: drift_inv_def)
    with y have "0 \<le> ?c" "?c \<le> of_nat (Suc B)" by simp_all
    note rb = round_bounded [OF this assms(3,4)]
    have B: "(of_nat B :: rat) \<le> of_nat (Suc B)" by simp
    from True eq have s': "snd (request_processing_d M1 b s) =
        s\<lparr>m1 := (m1 s)\<lparr>raw_material_consumed := double_round ?c,
                         m_state := Processing, current_batch_size := Some b,
                         m_time_remaining := t\<rparr>\<rparr>" by simp
    from assms(1,2) fl fl0 rb B show ?thesis
      unfolding s'
      by (auto simp: drift_inv_def wired_d_def default_machine_config_def batch_ok_def
            downstream_material_d_def)
  qed
qed

lemma request_processing_d_M2_inv:
  assumes "drift_inv B a s" "b \<in> {''full'', ''half'', ''third''}" "B \<le> 2 ^ K" "K \<le> 52"
  shows "drift_inv B (a + half_ulp K) (snd (request_processing_d M2 b s))"
proof -
  from assms(1) have w: "wired_d s" by (simp add: drift_inv_def)
  from request_processing_d_M2 [OF w assms(2)] obtain t where
    eq: "request_processing_d M2 b s =
           (if m_state (m2 s) \<noteq> M_idle then (Inr False, s)
            else if stored_output (m1 s) < yield_d b then
              (Inr False, s\<lparr>m1 := (m1 s)\<lparr>stored_output := 0\<rparr>\<rparr>)
            else (Inr True,
                  s\<lparr>m1 := (m1 s)\<lparr>stored_output := double_round (stored_output (m1 s) - yield_d b)\<rparr>,
                    m2 := (m2 s)\<lparr>m_state := Processing, current_batch_size := Some b,
                                   m_time_remaining := t\<rparr>\<rparr>))" by blast
  have hp: "0 \<le> half_ulp K" by (simp add: less_imp_le)
  show ?thesis
  proof (cases "m_state (m2 s) = M_idle")
    case False
    with eq have "snd (request_processing_d M2 b s) = s" by simp
    with drift_inv_mono [OF assms(1), of B "a + half_ulp K"] hp show ?thesis by simp
  next
    case True
    from True have fl0: "in_flight_d (m2 s) = 0" by (rule in_flight_d_idle)
    note fl = in_flight_d_started [OF assms(2), where m = "m2 s" and t = t]
    from size_quantity_d_valid [OF assms(2)] have y: "0 < yield_d b" "yield_d b \<le> 1" by simp_all
    from assms(1) have st: "0 \<le> stored_output (m1 s)" "stored_output (m1 s) \<le> of_nat B"
      by (simp_all add: drift_inv_def)
    show ?thesis
    proof (cases "stored_output (m1 s) < yield_d b")
      case True
      with \<open>m_state (m2 s) = M_idle\<close> eq have s': "snd (request_processing_d M2 b s) =
          s\<lparr>m1 := (m1 s)\<lparr>stored_output := 0\<rparr>\<rparr>" by simp
      from assms(1) st hp show ?thesis
        unfolding s'
        by (auto simp: drift_inv_def wired_d_def default_machine_config_def batch_ok_def
              downstream_material_d_def)
    next
      case False
      let ?x = "stored_output (m1 s) - yield_d b"
      from False y st have "0 \<le> ?x" "?x \<le> of_nat B" by simp_all
      note rb = round_bounded [OF this assms(3,4)]
      from False \<open>m_state (m2 s) = M_idle\<close> eq have s': "snd (request_processing_d M2 b s) =
          s\<lparr>m1 := (m1 s)\<lparr>stored_output := double_round ?x\<rparr>,
            m2 := (m2 s)\<lparr>m_state := Processing, current_batch_size := Some b,
                           m_time_remaining := t\<rparr>\<rparr>" by simp
      from assms(1,2) fl fl0 rb show ?thesis
        unfolding s'
        by (auto simp: drift_inv_def wired_d_def default_machine_config_def batch_ok_def
              downstream_material_d_def)
    qed
  qed
qed

lemma request_maintenance_m1_drift:
  assumes "drift_inv B a s"
  shows "drift_inv B a (s\<lparr>m1 := snd (request_maintenance (m1 s))\<rparr>)"
  using assms
  by (auto simp: drift_inv_def wired_d_def default_machine_config_def batch_ok_def
        downstream_material_d_def request_maintenance_def in_flight_d_def)

lemma request_maintenance_m2_drift:
  assumes "drift_inv B a s"
  shows "drift_inv B a (s\<lparr>m2 := snd (request_maintenance (m2 s))\<rparr>)"
  using assms
  by (auto simp: drift_inv_def wired_d_def default_machine_config_def batch_ok_def
        downstream_material_d_def request_maintenance_def in_flight_d_def)


lemma wired_d_truck:
  assumes "wired_d s"
  shows "t_source_machine (truck_of r s) = Some M2" "t_client (truck_of r s) = Some The_client"
    "0 < capacity (truck_of r s)" "capacity (truck_of r s) \<le> 1"
  using assms third_bounds by (cases r; simp add: wired_d_def)+

lemma request_shipment_d_wired:
  assumes "wired_d s" "0 \<le> stored_output (m2 s)"
  shows "request_shipment_d r s =
           (if t_state (truck_of r s) \<noteq> Available \<or> stored_output (m2 s) = 0 then (False, s)
            else (True,
                  put_truck r
                    ((truck_of r s)\<lparr>current_load := min (capacity (truck_of r s)) (stored_output (m2 s)),
                                     t_state := Delivering,
                                     t_time_remaining := time_to_deliver (truck_of r s)\<rparr>)
                    (s\<lparr>m2 := (m2 s)\<lparr>stored_output :=
                              double_round (stored_output (m2 s) -
                                 min (capacity (truck_of r s)) (stored_output (m2 s)))\<rparr>\<rparr>)))"
proof (cases "t_state (truck_of r s) = Available")
  case False
  then show ?thesis by (simp add: request_shipment_d_def)
next
  case True
  note wt = wired_d_truck [OF assms(1), of r]
  show ?thesis
  proof (cases "stored_output (m2 s) = 0")
    case True
    with \<open>t_state (truck_of r s) = Available\<close> wt show ?thesis
      by (simp add: request_shipment_d_def retrieve_quantity_d_def Let_def min_def)
  next
    case False
    with assms(2) wt(3) have pos: "\<not> min (capacity (truck_of r s)) (stored_output (m2 s)) \<le> 0"
      by (simp add: min_def)
    from False \<open>t_state (truck_of r s) = Available\<close> wt pos show ?thesis
      by (cases r) (simp_all add: request_shipment_d_def retrieve_quantity_d_def Let_def)
  qed
qed

lemma request_shipment_d_inv:
  assumes "drift_inv B a s" "B \<le> 2 ^ K" "K \<le> 52"
  shows "drift_inv B (a + half_ulp K) (snd (request_shipment_d r s))"
proof -
  from assms have w: "wired_d s" and st: "0 \<le> stored_output (m2 s)" "stored_output (m2 s) \<le> of_nat B"
    by (simp_all add: drift_inv_def)
  note eq = request_shipment_d_wired [OF w st(1), of r]
  note wt = wired_d_truck [OF w, of r]
  have hp: "0 \<le> half_ulp K" by (simp add: less_imp_le)
  show ?thesis
  proof (cases "t_state (truck_of r s) \<noteq> Available \<or> stored_output (m2 s) = 0")
    case True
    with eq have "snd (request_shipment_d r s) = s" by simp
    with drift_inv_mono [OF assms(1), of B "a + half_ulp K"] hp show ?thesis by simp
  next
    case False
    then have av: "t_state (truck_of r s) = Available" by simp
    let ?q = "min (capacity (truck_of r s)) (stored_output (m2 s))"
    from wt st have q: "0 \<le> ?q" "?q \<le> 1" "?q \<le> stored_output (m2 s)" by (simp_all add: min_def)
    with st have "0 \<le> stored_output (m2 s) - ?q" "stored_output (m2 s) - ?q \<le> of_nat B" by linarith+
    note rb = round_bounded [OF this assms(2,3)]
    from False eq have s': "snd (request_shipment_d r s) =
        put_truck r
          ((truck_of r s)\<lparr>current_load := ?q, t_state := Delivering,
                           t_time_remaining := time_to_deliver (truck_of r s)\<rparr>)
          (s\<lparr>m2 := (m2 s)\<lparr>stored_output := double_round (stored_output (m2 s) - ?q)\<rparr>\<rparr>)"
      by simp
    from av assms(1) q rb show ?thesis
      unfolding s'
      by (cases r)
         (auto simp: drift_inv_def wired_d_def default_machine_config_def batch_ok_def
            downstream_material_d_def in_transit_def)
  qed
qed

lemma quantity_shipped_d_raises_same:
  "raises (quantity_shipped_d q c) \<Longrightarrow> snd (quantity_shipped_d q c) = c"
  by (auto simp: raises_def quantity_shipped_d_def Let_def split: option.splits if_splits)

lemma quantity_shipped_d_success:
  assumes "client_ok c" "\<not> raises (quantity_shipped_d q c)"
  shows "0 < q" "double_round (order_quantity c + q) \<le> 1"
    "order_quantity (snd (quantity_shipped_d q c)) = double_round (order_quantity c + q)"
    "priority_distribution (snd (quantity_shipped_d q c)) = priority_distribution c"
    "order_penalties (snd (quantity_shipped_d q c)) = order_penalties c"
    "client_ok (snd (quantity_shipped_d q c))"
proof -
  from assms(2) have act: "c_state c \<in> {Order_placed, Wait_for_completion}"
    and q: "\<not> q \<le> 0" "\<not> double_round (order_quantity c + q) > 1"
    by (auto simp: raises_def quantity_shipped_d_def split: if_splits)
  with assms(1) obtain deadline itp otp where set:
    "time_limit c = Some deadline" "in_time_payment c = Some itp" "out_of_time_payment c = Some otp"
    by (auto simp: client_ok_def order_params_set_def)
  from q show "0 < q" "double_round (order_quantity c + q) \<le> 1" by simp_all
  from act q set show "order_quantity (snd (quantity_shipped_d q c)) = double_round (order_quantity c + q)"
    "priority_distribution (snd (quantity_shipped_d q c)) = priority_distribution c"
    "order_penalties (snd (quantity_shipped_d q c)) = order_penalties c"
    by (auto simp: quantity_shipped_d_def Let_def)
  from act q set assms(1) show "client_ok (snd (quantity_shipped_d q c))"
    by (auto simp: quantity_shipped_d_def Let_def client_ok_def order_params_set_def)
qed

lemma truck_step_d_idle:
  "t_state (truck_of r s) \<noteq> Delivering \<Longrightarrow> truck_step_d r s = (Inr False, s)"
  by (simp add: truck_step_d_def)

lemma truck_step_d_counting:
  "t_state (truck_of r s) = Delivering \<Longrightarrow> \<not> t_time_remaining (truck_of r s) - 1 \<le> 0 \<Longrightarrow>
   truck_step_d r s =
     (Inr False, put_truck r ((truck_of r s)\<lparr>t_time_remaining := t_time_remaining (truck_of r s) - 1\<rparr>) s)"
  by (simp add: truck_step_d_def Let_def)

lemma truck_step_d_rejected:
  assumes "t_state (truck_of r s) = Delivering" "t_time_remaining (truck_of r s) - 1 \<le> 0"
    "t_client (truck_of r s) = Some The_client"
    "raises (quantity_shipped_d (current_load (truck_of r s)) (client s))"
  shows "\<exists>e. truck_step_d r s =
     (Inl e, put_truck r ((truck_of r s)\<lparr>t_time_remaining := t_time_remaining (truck_of r s) - 1\<rparr>) s)"
proof -
  obtain x c' where ac: "quantity_shipped_d (current_load (truck_of r s)) (client s) = (x, c')"
    by (cases "quantity_shipped_d (current_load (truck_of r s)) (client s)")
  with assms(4) obtain e where "x = Inl e" by (cases x) (auto simp: raises_def)
  with ac have q: "quantity_shipped_d (current_load (truck_of r s)) (client s) = (Inl e, c')" by simp
  from quantity_shipped_d_raises_same [OF assms(4)] q have c': "c' = client s" by simp
  from assms(1-3) q c' have "truck_step_d r s =
     (Inl e, put_truck r ((truck_of r s)\<lparr>t_time_remaining := t_time_remaining (truck_of r s) - 1\<rparr>) s)"
    by (cases r) (simp_all add: truck_step_d_def Let_def)
  then show ?thesis ..
qed

lemma truck_step_d_delivered:
  assumes "t_state (truck_of r s) = Delivering" "t_time_remaining (truck_of r s) - 1 \<le> 0"
    "t_client (truck_of r s) = Some The_client"
    "\<not> raises (quantity_shipped_d (current_load (truck_of r s)) (client s))"
  shows "truck_step_d r s =
     (Inr True,
      put_truck r ((truck_of r s)\<lparr>t_time_remaining := t_time_remaining (truck_of r s) - 1,
                                      t_state := Available, current_load := 0\<rparr>)
        (s\<lparr>client := snd (quantity_shipped_d (current_load (truck_of r s)) (client s))\<rparr>))"
proof -
  obtain x c' where ac: "quantity_shipped_d (current_load (truck_of r s)) (client s) = (x, c')"
    by (cases "quantity_shipped_d (current_load (truck_of r s)) (client s)")
  with assms(4) obtain p where "x = Inr p" by (cases x) (auto simp: raises_def)
  with ac have q: "quantity_shipped_d (current_load (truck_of r s)) (client s) = (Inr p, c')" by simp
  from assms(1-3) q show ?thesis
    by (cases r) (simp_all add: truck_step_d_def Let_def)
qed

lemma truck_step_d_inv:
  assumes "drift_inv B a s" "2 \<le> (2::nat) ^ K" "K \<le> 52"
  shows "drift_inv B (a + half_ulp K) (snd (truck_step_d r s))"
proof -
  from assms have w: "wired_d s" and ok: "client_ok (client s)"
    and oq: "0 \<le> order_quantity (client s)" "order_quantity (client s) \<le> 1"
    by (simp_all add: drift_inv_def)
  note wt = wired_d_truck [OF w, of r]
  have hp: "0 \<le> half_ulp K" by (simp add: less_imp_le)
  let ?q = "current_load (truck_of r s)"
  consider (idle) "t_state (truck_of r s) \<noteq> Delivering"
    | (counting) "t_state (truck_of r s) = Delivering" "\<not> t_time_remaining (truck_of r s) - 1 \<le> 0"
    | (rejected) "t_state (truck_of r s) = Delivering" "t_time_remaining (truck_of r s) - 1 \<le> 0"
        "raises (quantity_shipped_d ?q (client s))"
    | (delivered) "t_state (truck_of r s) = Delivering" "t_time_remaining (truck_of r s) - 1 \<le> 0"
        "\<not> raises (quantity_shipped_d ?q (client s))"
    by blast
  then show ?thesis
  proof cases
    case idle
    then have "snd (truck_step_d r s) = s" by (simp add: truck_step_d_idle)
    with drift_inv_mono [OF assms(1), of B "a + half_ulp K"] hp show ?thesis by simp
  next
    case counting
    with assms(1) hp show ?thesis
      by (cases r)
         (auto simp: truck_step_d_counting drift_inv_def wired_d_def downstream_material_d_def in_transit_def)
  next
    case rejected
    from truck_step_d_rejected [OF rejected(1,2) wt(2) rejected(3)] obtain e where
      "truck_step_d r s =
        (Inl e, put_truck r ((truck_of r s)\<lparr>t_time_remaining := t_time_remaining (truck_of r s) - 1\<rparr>) s)" ..
    with rejected(1) assms(1) hp show ?thesis
      by (cases r)
         (auto simp: drift_inv_def wired_d_def downstream_material_d_def in_transit_def)
  next
    case delivered
    note eq = truck_step_d_delivered [OF delivered(1,2) wt(2) delivered(3)]
    note suc = quantity_shipped_d_success [OF ok delivered(3)]
    from delivered(1) assms(1) have ld: "?q \<le> 1"
      by (cases r) (simp_all add: drift_inv_def in_transit_def)
    from suc(1) oq ld have "0 \<le> order_quantity (client s) + ?q"
      "order_quantity (client s) + ?q \<le> of_nat 2" by simp_all
    note rb = round_bounded [OF this assms(2,3)]
    from eq suc rb delivered(1) assms(1) show ?thesis
      by (cases r)
         (auto simp: drift_inv_def wired_d_def downstream_material_d_def in_transit_def)
  qed
qed

lemma step_machines_d_wired:
  "machines s = [M1, M2] \<Longrightarrow>
   step_machines_d d (machines s) s =
     s\<lparr>m1 := snd (machine_step_d (m1_outcome d) (m1 s)),
       m2 := snd (machine_step_d (m2_outcome d) (m2 s))\<rparr>"
  by simp

lemma step_trucks_d_wired:
  "trucks s = [Small, Big] \<Longrightarrow>
   step_trucks_d (trucks s) s = snd (truck_step_d Big (snd (truck_step_d Small s)))"
  by simp

lemma step_machines_d_inv:
  assumes "drift_inv B a s" "valid_draws d s" "Suc B \<le> 2 ^ K" "K \<le> 52"
  shows "drift_inv (Suc B) (a + 2 * half_ulp K) (step_machines_d d (machines s) s)"
proof -
  from assms(1) have w: "wired_d s" by (simp add: drift_inv_def)
  then have ms: "machines s = [M1, M2]" by (simp add: wired_d_def)
  from assms have a1: "batch_ok (m1 s)" "default_machine_config (m1 s)" "valid_outcome (m1_outcome d) (m1 s)"
      "0 \<le> stored_output (m1 s)" "stored_output (m1 s) \<le> of_nat B"
    and a2: "batch_ok (m2 s)" "default_machine_config (m2 s)" "valid_outcome (m2_outcome d) (m2 s)"
      "0 \<le> stored_output (m2 s)" "stored_output (m2 s) \<le> of_nat B"
    by (simp_all add: drift_inv_def wired_d_def valid_draws_def)
  note h1 = machine_step_d_held [OF a1 assms(3,4)]
  note h2 = machine_step_d_held [OF a2 assms(3,4)]
  have B: "(of_nat B :: rat) \<le> of_nat (Suc B)" by simp
  from assms(1) h1 h2 B show ?thesis
    unfolding step_machines_d_wired [OF ms]
    by (simp add: drift_inv_def wired_d_def downstream_material_d_def)
qed

lemma step_time_drift:
  assumes "drift_inv B a s"
  shows "drift_inv B a (s\<lparr>client := snd (step_time (client s))\<rparr>)"
proof -
  have "order_quantity (snd (step_time (client s))) = order_quantity (client s)"
    "priority_distribution (snd (step_time (client s))) = priority_distribution (client s)"
    "order_penalties (snd (step_time (client s))) = order_penalties (client s)"
    by (simp_all add: step_time_def Let_def split: option.splits)
  moreover from assms have "client_ok (snd (step_time (client s)))"
    by (simp_all add: drift_inv_def step_time_ok)
  ultimately show ?thesis using assms
    by (simp add: drift_inv_def wired_d_def downstream_material_d_def)
qed

lemma system_step_d_inv:
  assumes "drift_inv B a s" "valid_draws d s" "Suc B \<le> 2 ^ K" "1 \<le> K" "K \<le> 52"
  shows "drift_inv (Suc B) (a + 4 * half_ulp K) (snd (system_step_d d s))"
proof -
  from assms(4) have two: "2 \<le> (2::nat) ^ K" by (cases K) simp_all
  let ?s1 = "step_machines_d d (machines s) s"
  have i1: "drift_inv (Suc B) (a + 2 * half_ulp K) ?s1"
    using assms(1,2,3,5) by (rule step_machines_d_inv)
  then have "trucks ?s1 = [Small, Big]" by (simp add: drift_inv_def wired_d_def)
  then have st: "step_trucks_d (trucks ?s1) ?s1 = snd (truck_step_d Big (snd (truck_step_d Small ?s1)))"
    by (rule step_trucks_d_wired)
  have "drift_inv (Suc B) (a + 2 * half_ulp K + half_ulp K) (snd (truck_step_d Small ?s1))"
    using i1 two assms(5) by (rule truck_step_d_inv)
  then have "drift_inv (Suc B) (a + 2 * half_ulp K + half_ulp K + half_ulp K)
               (snd (truck_step_d Big (snd (truck_step_d Small ?s1))))"
    using two assms(5) by (rule truck_step_d_inv)
  then have i2: "drift_inv (Suc B) (a + 4 * half_ulp K) (step_trucks_d (trucks ?s1) ?s1)"
    unfolding st by (simp add: algebra_simps)
  then show ?thesis
    by (simp add: system_step_d_def Let_def step_time_drift)
qed


lemma request_full_from_zero:
  assumes "drift_inv 0 0 s" "m_state (m1 s) = M_idle" "raw_material_consumed (m1 s) = 0"
  shows "drift_inv 1 0 (snd (request_processing_d M1 ''full'' s))"
proof -
  from assms(1) have w: "wired_d s" by (simp add: drift_inv_def)
  from request_processing_d_M1 [OF w, of "''full''"] assms(2,3) obtain t where
    s': "snd (request_processing_d M1 ''full'' s) =
           s\<lparr>m1 := (m1 s)\<lparr>raw_material_consumed := double_round 1,
                            m_state := Processing, current_batch_size := Some ''full'',
                            m_time_remaining := t\<rparr>\<rparr>"
    by (auto simp: yield_d_simps)
  have one: "double_round 1 = 1" using double_round_of_int [of 1] by simp
  have fl: "in_flight_d ((m1 s)\<lparr>raw_material_consumed := 1,
                                   m_state := Processing, current_batch_size := Some ''full'',
                                   m_time_remaining := t\<rparr>) = 1"
    using in_flight_d_started [where b = "''full''" and m = "(m1 s)\<lparr>raw_material_consumed := 1\<rparr>" and t = t]
    by (simp add: yield_d_simps)
  from assms(2) have fl0: "in_flight_d (m1 s) = 0" by (rule in_flight_d_idle)
  from assms(1) fl fl0 show ?thesis
    unfolding s' one
    by (auto simp: drift_inv_def wired_d_def default_machine_config_def batch_ok_def
          downstream_material_d_def)
qed

lemma drift_inv_after_order:
  assumes "wired_d s" "p \<in> {''low'', ''medium'', ''high''}"
  shows "drift_inv 0 0
           (s\<lparr>current_enacted_strategy := y,
               m1 := machine_reset (m1 s), m2 := machine_reset (m2 s),
               small_truck := truck_reset (small_truck s), big_truck := truck_reset (big_truck s),
               client := (client_reset (client s))
                   \<lparr>current_priority := Some p, time_limit := Some deadline, in_time_payment := Some itp,
                     out_of_time_payment := Some otp, c_state := Order_placed, time_passed := 0,
                     order_quantity := 0, current_payment := 0\<rparr>,
               s_current_priority := x\<rparr>)"
  using assms(1)
  by (simp add: drift_inv_def wired_d_def default_machine_config_def batch_ok_def
        downstream_material_d_def in_transit_def in_flight_d_def machine_reset_def truck_reset_def
        client_reset_def client_ok_def order_params_set_def)

lemma system_reset_d_inv:
  assumes "wired_d s" "0 \<le> rand_val d" "rand_val d < 1"
  shows "drift_inv 1 0 (snd (system_reset_d d s))"
proof -
  from assms(1) have ms: "machines s = [M1, M2]" and ts: "trucks s = [Small, Big]"
    and pd: "priority_distribution (client s) = default_priority_distribution"
    and pen: "order_penalties (client s) = default_order_penalties"
    by (simp_all add: wired_d_def)
  let ?c = "client_reset (client s)"
  have "c_state ?c = C_idle" "priority_distribution ?c = default_priority_distribution"
    "order_penalties ?c = default_order_penalties"
    using pd pen by (simp_all add: client_reset_def)
  from place_order_default [OF this assms(2,3)] obtain p deadline itp otp where
    p: "p \<in> {''low'', ''medium'', ''high''}" and
    po: "place_order (rand_val d) ?c =
             (Inr p,
              ?c\<lparr>current_priority := Some p, time_limit := Some deadline, in_time_payment := Some itp,
                out_of_time_payment := Some otp, c_state := Order_placed, time_passed := 0,
                order_quantity := 0, current_payment := 0\<rparr>)"
    by blast
  let ?s3 = "s\<lparr>current_enacted_strategy := 0,
               m1 := machine_reset (m1 s), m2 := machine_reset (m2 s),
               small_truck := truck_reset (small_truck s), big_truck := truck_reset (big_truck s),
               client := ?c
                   \<lparr>current_priority := Some p, time_limit := Some deadline, in_time_payment := Some itp,
                     out_of_time_payment := Some otp, c_state := Order_placed, time_passed := 0,
                     order_quantity := 0, current_payment := 0\<rparr>,
               s_current_priority := Some p\<rparr>"
  have inv3: "drift_inv 0 0 ?s3" using assms(1) p by (rule drift_inv_after_order)
  have "snd (system_reset_d d s) = snd (request_processing_d M1 ''full'' ?s3)"
    using ms ts po by (simp add: system_reset_d_def Let_def m1_processing_full_d_def)
  moreover have "drift_inv 1 0 (snd (request_processing_d M1 ''full'' ?s3))"
    using inv3 by (rule request_full_from_zero) (simp_all add: machine_reset_def)
  ultimately show ?thesis by simp
qed

lemma System_init_d_inv:
  assumes "0 \<le> rv" "rv < 1"
  shows "\<exists>s. System_init_d rv = Inr s \<and> drift_inv 1 0 s"
proof -
  let ?c = "Client_init default_priority_distribution default_order_penalties"
  have "c_state ?c = C_idle" "priority_distribution ?c = default_priority_distribution"
    "order_penalties ?c = default_order_penalties"
    by (simp_all add: Client_init_def)
  from place_order_default [OF this assms] obtain p deadline itp otp where
    p: "p \<in> {''low'', ''medium'', ''high''}" and
    po: "place_order rv ?c =
             (Inr p,
              ?c\<lparr>current_priority := Some p, time_limit := Some deadline, in_time_payment := Some itp,
                out_of_time_payment := Some otp, c_state := Order_placed, time_passed := 0,
                order_quantity := 0, current_payment := 0\<rparr>)"
    by blast
  let ?s0 = "\<lparr> client = ?c\<lparr>current_priority := Some p, time_limit := Some deadline, in_time_payment := Some itp,
                out_of_time_payment := Some otp, c_state := Order_placed, time_passed := 0,
                order_quantity := 0, current_payment := 0\<rparr>,
               m1 = Machine_init ''M1'', m2 = (Machine_init ''M2'')\<lparr>source_machine := Some M1\<rparr>,
               small_truck = (Truck_init (double_round (1/3)) 2 ''Small Truck'')\<lparr>t_source_machine := Some M2, t_client := Some The_client\<rparr>,
               big_truck = (Truck_init 1 3 ''Big Truck'')\<lparr>t_source_machine := Some M2, t_client := Some The_client\<rparr>,
               time = 0, total_profit = 0, s_current_priority = Some p,
               machines = [M1, M2], trucks = [Small, Big],
               current_enacted_strategy = 0 \<rparr>"
  have inv0: "drift_inv 0 0 ?s0"
    by (simp add: drift_inv_def wired_d_def default_machine_config_def batch_ok_def
        downstream_material_d_def in_transit_def in_flight_d_def Machine_init_def Truck_init_def
        Client_init_def client_ok_def order_params_set_def)
  let ?s = "snd (request_processing_d M1 ''full'' ?s0)"
  have inv: "drift_inv 1 0 ?s"
    using inv0 by (rule request_full_from_zero) (simp_all add: Machine_init_def)
  then have "client_ok (client ?s)" by (simp add: drift_inv_def)
  from get_state_ok [OF this] obtain ob where ob: "get_state ?s = Inr ob" ..
  have "System_init_d rv = Inr ?s"
    using po ob by (simp add: System_init_d_def Let_def m1_processing_full_d_def)
  with inv show ?thesis by blast
qed

lemma action_d_inv:
  assumes "drift_inv B a s" "valid_draws d s" "Suc B \<le> 2 ^ K" "1 \<le> K" "K \<le> 52" "0 \<le> a"
  shows "drift_inv (Suc B) (a + 4 * half_ulp K) (snd (action_d c d s))"
proof -
  have hp: "0 \<le> half_ulp K" by (simp add: less_imp_le)
  from assms(3) have B: "B \<le> 2 ^ K" by simp
  have up: "drift_inv (Suc B) (a + 4 * half_ulp K) s'"
    if "drift_inv B' a' s'" "B' \<le> Suc B" "a' \<le> a + half_ulp K" for B' a' s'
  proof -
    from that(3) hp have "a' \<le> a + 4 * half_ulp K" by simp
    from drift_inv_mono [OF that(1,2) this] show ?thesis .
  qed
  have m1p: "drift_inv (Suc B) (a + 4 * half_ulp K) (snd (request_processing_d M1 b s))"
    if "b \<in> {''full'', ''half'', ''third''}" for b
    using request_processing_d_M1_inv [OF assms(1) that assms(3,5)] by (rule up) simp_all
  have m2p: "drift_inv (Suc B) (a + 4 * half_ulp K) (snd (request_processing_d M2 b s))"
    if "b \<in> {''full'', ''half'', ''third''}" for b
    using request_processing_d_M2_inv [OF assms(1) that B assms(5)] by (rule up) simp_all
  have shp: "drift_inv (Suc B) (a + 4 * half_ulp K) (snd (request_shipment_d r s))" for r
    using request_shipment_d_inv [OF assms(1) B assms(5)] by (rule up) simp_all
  have mt1: "drift_inv (Suc B) (a + 4 * half_ulp K) (s\<lparr>m1 := snd (request_maintenance (m1 s))\<rparr>)"
    by (rule up [OF request_maintenance_m1_drift [OF assms(1)]]) (simp_all add: hp)
  have mt2: "drift_inv (Suc B) (a + 4 * half_ulp K) (s\<lparr>m2 := snd (request_maintenance (m2 s))\<rparr>)"
    by (rule up [OF request_maintenance_m2_drift [OF assms(1)]]) (simp_all add: hp)
  have stp: "drift_inv (Suc B) (a + 4 * half_ulp K) (snd (system_step_d d s))"
    using assms(1-5) by (rule system_step_d_inv)
  from assms(1,2) have "wired_d s" "0 \<le> rand_val d" "rand_val d < 1"
    by (simp_all add: drift_inv_def valid_draws_def)
  then have "drift_inv 1 0 (snd (system_reset_d d s))" by (rule system_reset_d_inv)
  then have rst: "drift_inv (Suc B) (a + 4 * half_ulp K) (snd (system_reset_d d s))"
    by (rule up) (use assms(6) hp in simp_all)
  show ?thesis
  proof (cases "map_of action_methods_d c")
    case None
    then have "snd (action_d c d s) = s" by (simp add: action_d_def)
    with up [OF assms(1)] hp show ?thesis by simp
  next
    case (Some f)
    then have "(c, f) \<in> set action_methods_d" by (rule map_of_SomeD)
    then have "drift_inv (Suc B) (a + 4 * half_ulp K) (snd (f d s))"
      by (auto simp: action_methods_d_def m1_processing_third_d_def m1_processing_half_d_def
            m1_processing_full_d_def m1_maintenance_def m2_processing_third_d_def m2_processing_half_d_def
            m2_processing_full_d_def m2_maintenance_def small_truck_shipment_d_def big_truck_shipment_d_def
            Let_def m1p m2p shp mt1 mt2 stp rst)
    with Some show ?thesis by (simp add: action_d_def)
  qed
qed

lemma run_d_inv:
  assumes "drift_inv B a s" "valid_run_d cmds s" "B + length cmds \<le> 2 ^ K" "1 \<le> K" "K \<le> 52" "0 \<le> a"
  shows "drift_inv (B + length cmds) (a + 4 * of_nat (length cmds) * half_ulp K) (run_d cmds s)"
  using assms
proof (induction cmds arbitrary: s B a)
  case Nil
  then show ?case by simp
next
  case (Cons c cmds)
  obtain x d where c: "c = (x, d)" by (cases c)
  have hp: "0 \<le> half_ulp K" by (simp add: less_imp_le)
  from Cons.prems(2) c have vd: "valid_draws d s" and vr: "valid_run_d cmds (snd (action_d x d s))"
    by simp_all
  from Cons.prems(3) have sb: "Suc B \<le> 2 ^ K" and rest: "Suc B + length cmds \<le> 2 ^ K" by simp_all
  have step: "drift_inv (Suc B) (a + 4 * half_ulp K) (snd (action_d x d s))"
    using Cons.prems(1) vd sb Cons.prems(4,5,6) by (rule action_d_inv)
  have a': "0 \<le> a + 4 * half_ulp K" using Cons.prems(6) hp by simp
  from Cons.IH [OF step vr rest Cons.prems(4,5) a']
  have "drift_inv (Suc B + length cmds)
          (a + 4 * half_ulp K + 4 * of_nat (length cmds) * half_ulp K)
          (run_d cmds (snd (action_d x d s)))" .
  moreover have "a + 4 * half_ulp K + 4 * of_nat (length cmds) * half_ulp K =
                 a + 4 * of_nat (length (c # cmds)) * half_ulp K"
    by (simp add: algebra_simps)
  ultimately show ?case using c by simp
qed

lemma in_flight_d_nonneg: "batch_ok m \<Longrightarrow> 0 \<le> in_flight_d m"
  using third_bounds by (auto simp: batch_ok_def in_flight_d_def size_quantity_d_def)

text \<open>
  C2, amended. For every sequence of \<open>n\<close> System commands from a fresh System, whatever
  outcomes the machines sample, the sum of M1's stored output, M2's in-flight input,
  M2's stored output, the truck loads in transit and the client's order quantity
  exceeds the raw material M1 has consumed by at most the rounding errors of the run:
  \<open>4 * n * 2^(K-53)\<close> when \<open>n + 1 \<le> 2^K \<le> 2^52\<close>, even with the input of M1's own
  batch in flight added to the sum. The sums are those of the doubles, taken exactly.
\<close>

theorem downstream_within_rounding:
  assumes "0 \<le> rv" "rv < 1" "System_init_d rv = Inr s0" "valid_run_d cmds s0"
    "length cmds + 1 \<le> 2 ^ K" "K \<le> 52"
  shows "downstream_material_d (run_d cmds s0) + in_flight_d (m1 (run_d cmds s0))
           \<le> raw_material_consumed (m1 (run_d cmds s0)) +
              4 * of_nat (length cmds) * 2 powi (int K - 53) \<and>
         downstream_material_d (run_d cmds s0)
           \<le> raw_material_consumed (m1 (run_d cmds s0)) +
              4 * of_nat (length cmds) * 2 powi (int K - 53)"
proof -
  from System_init_d_inv [OF assms(1,2)] assms(3) have inv0: "drift_inv 1 0 s0" by auto
  have inv: "drift_inv (1 + length cmds) (0 + 4 * of_nat (length cmds) * half_ulp K) (run_d cmds s0)"
  proof (cases cmds)
    case Nil
    with inv0 show ?thesis by simp
  next
    case (Cons c rest)
    with assms(5) have "2 \<le> (2::nat) ^ K" by simp
    then have K: "1 \<le> K" by (cases K) simp_all
    from assms(5) have "1 + length cmds \<le> 2 ^ K" by simp
    with inv0 assms(4) show ?thesis using K assms(6) by (intro run_d_inv) simp_all
  qed
  then have "0 \<le> in_flight_d (m1 (run_d cmds s0))" by (simp add: drift_inv_def in_flight_d_nonneg)
  with inv show ?thesis by (simp add: drift_inv_def half_ulp_def)
qed

lemma double_round_one: "double_round 1 = 1"
  using double_round_of_int [of 1] by simp

lemma double_round_half: "double_round (1/2) = 1/2"
  using double_round_exact [of "1/2" 1 "- 1"] by simp

lemma one_minus_third_d:
  "double_round (1 - double_round (1/3)) = 3002399751580331 / 4503599627370496"
  unfolding third_d
  by (subst double_round_eval [where e = "- 1"]) (simp_all add: round_half_even_def Let_def)

lemma System_init_d_0: "System_init_d 0 = Inr fresh_low_d"
  by (simp add: System_init_d_def fresh_low_d_def fresh_low_def placed_client_eq place_order_def Client_init_def
        default_priority_distribution_def default_order_penalties_def Machine_init_def Truck_init_def
        m1_processing_full_d_def request_processing_d_def start_processing_def size_quantity_d_def
        default_processing_times_def get_state_def time_to_penalty_of_def Let_def double_round_one)

lemmas eval_defs_d =
  fresh_low_d_def fresh_low_def placed_client_eq half_third_def full_third_def three_steps_def thirds_run_def
  Machine_init_def Truck_init_def Client_init_def
  default_priority_distribution_def default_order_penalties_def default_processing_times_def
  default_success_probabilities_def default_maintenance_effect_def size_quantity_d_def
  action_d_def action_methods_d_def system_step_d_def
  m2_processing_third_d_def
  request_processing_d_def start_processing_def
  retrieve_quantity_d_def machine_step_d_def outcome_table_def truck_step_d_def
  step_time_def Let_def double_round_one double_round_half

lemma run3_d: "run_d three_steps fresh_low_d =
   fresh_low_d\<lparr>m1 := (m1 fresh_low_d)\<lparr>m_time_remaining := 0, stored_output := 1/2, m_state := M_idle,
                                         current_batch_size := None\<rparr>,
               client := (client fresh_low_d)\<lparr>time_passed := 3\<rparr>\<rparr>"
  by (simp add: eval_defs_d)

lemma valid3_d: "valid_run_d three_steps fresh_low_d"
  apply (simp add: three_steps_def)
  apply (simp add: eval_defs_d valid_draws_def valid_outcome_def possible_outcomes_def)
  done

lemma third_le_one [simp]: "double_round (1/3) \<le> 1" "\<not> 1 < double_round (1/3)"
  using third_bounds by simp_all

lemma run_thirds: "run_d thirds_run fresh_low_d =
   fresh_low_d\<lparr>m1 := (m1 fresh_low_d)\<lparr>m_time_remaining := 0,
                                         stored_output := double_round (1 - double_round (1/3)),
                                         m_state := M_idle, current_batch_size := None\<rparr>,
               m2 := (m2 fresh_low_d)\<lparr>m_state := Processing, current_batch_size := Some ''third'',
                                         m_time_remaining := 1\<rparr>,
               client := (client fresh_low_d)\<lparr>time_passed := 3\<rparr>\<rparr>"
  by (simp add: eval_defs_d min_def)

lemma valid_thirds: "valid_run_d thirds_run fresh_low_d"
  apply (simp add: thirds_run_def)
  apply (simp add: eval_defs_d valid_draws_def valid_outcome_def possible_outcomes_def)
  done

text \<open>
  C2, as stated, fails. The constructor has already made M1 consume one unit for the
  batch it starts, which the sum does not count; when that batch completes with the
  outcome \<^verbatim>\<open>half\<close> (no \<^verbatim>\<open>none\<close> sampled) M1 stores 1/2 for the unit it consumed; and
  when it completes with the outcome \<^verbatim>\<open>full\<close> and M2 then takes a third, the
  difference \<^verbatim>\<open>1.0 - 1/3\<close> rounds up, so that M1's stock and M2's input add up to
  \<open>1 + 2^-54\<close>, more than the unit consumed.
\<close>

theorem conservation_counterexample:
  "System_init_d 0 = Inr fresh_low_d \<and>
   raw_material_consumed (m1 fresh_low_d) = 1 \<and> downstream_material_d fresh_low_d = 0 \<and>
   \<not> conserved_d fresh_low_d \<and>
   valid_run_d three_steps fresh_low_d \<and>
   m1_outcome half_third \<noteq> ''none'' \<and> m2_outcome half_third \<noteq> ''none'' \<and>
   raw_material_consumed (m1 (run_d three_steps fresh_low_d)) = 1 \<and>
   downstream_material_d (run_d three_steps fresh_low_d) = 1/2 \<and>
   \<not> conserved_d (run_d three_steps fresh_low_d) \<and>
   valid_run_d thirds_run fresh_low_d \<and>
   m1_outcome full_third \<noteq> ''none'' \<and> m2_outcome full_third \<noteq> ''none'' \<and>
   raw_material_consumed (m1 (run_d thirds_run fresh_low_d)) = 1 \<and>
   downstream_material_d (run_d thirds_run fresh_low_d) = 1 + 1 / 2 ^ 54 \<and>
   \<not> conserved_d (run_d thirds_run fresh_low_d)"
proof -
  have a: "raw_material_consumed (m1 fresh_low_d) = 1 \<and> downstream_material_d fresh_low_d = 0 \<and>
        \<not> conserved_d fresh_low_d"
    by (simp add: conserved_d_def downstream_material_d_def in_flight_d_def in_transit_def
          fresh_low_d_def fresh_low_def placed_client_eq Machine_init_def Truck_init_def)
  have b: "raw_material_consumed (m1 (run_d three_steps fresh_low_d)) = 1 \<and>
        downstream_material_d (run_d three_steps fresh_low_d) = 1/2 \<and>
        \<not> conserved_d (run_d three_steps fresh_low_d)"
    unfolding run3_d
    by (simp add: conserved_d_def downstream_material_d_def in_flight_d_def in_transit_def
          fresh_low_d_def fresh_low_def placed_client_eq Machine_init_def Truck_init_def)
  have c: "raw_material_consumed (m1 (run_d thirds_run fresh_low_d)) = 1 \<and>
        downstream_material_d (run_d thirds_run fresh_low_d) = 1 + 1 / 2 ^ 54 \<and>
        \<not> conserved_d (run_d thirds_run fresh_low_d)"
    unfolding run_thirds
    by (simp add: conserved_d_def downstream_material_d_def in_flight_d_def in_transit_def
          fresh_low_d_def fresh_low_def placed_client_eq Machine_init_def Truck_init_def
          size_quantity_d_def one_minus_third_d)
       (simp add: third_d)
  have d: "m1_outcome half_third \<noteq> ''none'' \<and> m2_outcome half_third \<noteq> ''none'' \<and>
           m1_outcome full_third \<noteq> ''none'' \<and> m2_outcome full_third \<noteq> ''none''"
    by (simp add: half_third_def full_third_def)
  from a b c d System_init_d_0 valid3_d valid_thirds show ?thesis by blast
qed

theorem downstream_within_rounding_witness:
  "(0::rat) \<le> 0 \<and> (0::rat) < 1 \<and> System_init_d 0 = Inr fresh_low_d \<and>
   valid_run_d thirds_run fresh_low_d \<and> length thirds_run + 1 \<le> 2 ^ 3 \<and> (3::nat) \<le> 52 \<and>
   downstream_material_d (run_d thirds_run fresh_low_d)
     \<le> raw_material_consumed (m1 (run_d thirds_run fresh_low_d)) +
        4 * of_nat (length thirds_run) * 2 powi (int 3 - 53)"
proof -
  have len: "length thirds_run + 1 \<le> 2 ^ 3" by (simp add: thirds_run_def)
  from downstream_within_rounding [OF _ _ System_init_d_0 valid_thirds len]
  have "downstream_material_d (run_d thirds_run fresh_low_d)
     \<le> raw_material_consumed (m1 (run_d thirds_run fresh_low_d)) +
        4 * of_nat (length thirds_run) * 2 powi (int 3 - 53)" by simp
  with System_init_d_0 valid_thirds len show ?thesis by simp
qed

section \<open>Properties of the strategy\<close>


lemma strategy_command_range:
  "strategy_command s \<in> {''m2_maintenance'', ''m2_processing_third'', ''m1_maintenance'',
       ''m1_processing_full'', ''small_truck_shipment'', ''step''}"
  by (simp add: strategy_command_def Let_def)















lemma big_truck_put_machine [simp]: "big_truck (put_machine r m s) = big_truck s"
  by (cases r) simp_all

lemma big_truck_start_processing: "big_truck (snd (start_processing r b s)) = big_truck s"
  by (simp add: start_processing_def Let_def split: option.splits)

lemma big_truck_request_processing: "big_truck (snd (request_processing r b s)) = big_truck s"
proof (cases "map_of size_quantity b")
  case None
  then show ?thesis by (simp add: request_processing_def)
next
  case (Some need)
  show ?thesis
  proof (cases "source_machine (machine_of r s)")
    case None
    with Some show ?thesis
      by (simp add: request_processing_def big_truck_start_processing)
  next
    case (Some src)
    with \<open>map_of size_quantity b = Some need\<close> show ?thesis
      by (simp add: request_processing_def retrieve_quantity_def Let_def big_truck_start_processing)
  qed
qed

lemma big_truck_request_shipment_small: "big_truck (snd (request_shipment Small s)) = big_truck s"
proof (cases "t_source_machine (small_truck s)")
  case None
  then show ?thesis by (simp add: request_shipment_def)
next
  case (Some src)
  then show ?thesis
    by (cases "t_client (small_truck s)")
       (simp_all add: request_shipment_def retrieve_quantity_def Let_def)
qed

lemma big_truck_step_machines: "big_truck (step_machines d rs s) = big_truck s"
  by (induction rs arbitrary: s) simp_all

lemma big_truck_truck_step:
  assumes "t_state (big_truck s) = Available"
  shows "t_state (big_truck (snd (truck_step r s))) = Available"
proof (cases r)
  case Big
  with assms show ?thesis by (simp add: truck_step_def)
next
  case Small
  have "big_truck (snd (truck_step Small s)) = big_truck s"
  proof (cases "quantity_shipped (current_load (small_truck s)) (client s)")
    case (Pair a c')
    then show ?thesis
      by (cases a; cases "t_client (small_truck s)")
         (simp_all add: truck_step_def Let_def)
  qed
  with assms Small show ?thesis by simp
qed

lemma big_truck_step_trucks:
  "t_state (big_truck s) = Available \<Longrightarrow> t_state (big_truck (step_trucks rs s)) = Available"
  by (induction rs arbitrary: s) (simp_all add: big_truck_truck_step)

lemma big_truck_system_step:
  "t_state (big_truck s) = Available \<Longrightarrow> t_state (big_truck (snd (system_step d s))) = Available"
  by (simp add: system_step_def Let_def big_truck_step_trucks big_truck_step_machines)

lemma big_truck_enact_strategy:
  assumes "t_state (big_truck s) = Available"
  shows "t_state (big_truck (snd (enact_strategy d s))) = Available"
proof -
  have "snd (enact_strategy d s) = s \<or> snd (enact_strategy d s) = snd (action (strategy_command s) d s)"
    by (simp add: enact_strategy_def Let_def split: option.splits prod.splits sum.splits)
  moreover have "t_state (big_truck (snd (action (strategy_command s) d s))) = Available"
    using strategy_command_range [of s] assms
    by (auto simp: action_def action_methods_def m2_maintenance_def m1_maintenance_def
          m2_processing_third_def m1_processing_full_def small_truck_shipment_def Let_def
          big_truck_request_processing big_truck_request_shipment_small big_truck_system_step)
  ultimately show ?thesis using assms by auto
qed

lemma big_truck_enact_run:
  "t_state (big_truck s) = Available \<Longrightarrow> t_state (big_truck (enact_run ds s)) = Available"
  by (induction ds arbitrary: s) (simp_all add: big_truck_enact_strategy)

lemma enact_strategy_enacted:
  "fst (enact_strategy d s) = Inr (Enacted c ob) \<Longrightarrow> c = strategy_command s"
  by (auto simp: enact_strategy_def Let_def split: option.splits prod.splits sum.splits if_splits)

text \<open>
  C9. In every state, reachable or not, the strategy never selects
  \<^verbatim>\<open>big_truck_shipment\<close> and \<^verbatim>\<open>enact_strategy\<close> never reports it as the executed
  command: the condition of the big-truck rule implies the condition of the
  small-truck rule tested before it. Hence a big truck that is available stays
  available through any number of calls of \<^verbatim>\<open>enact_strategy\<close>.
\<close>

theorem strategy_never_dispatches_big_truck:
  "strategy_command s \<noteq> ''big_truck_shipment'' \<and>
   fst (enact_strategy d s) \<noteq> Inr (Enacted ''big_truck_shipment'' ob) \<and>
   (rule_big_truck_shipment s \<longrightarrow> rule_small_truck_shipment s) \<and>
   (t_state (big_truck s) = Available \<longrightarrow> t_state (big_truck (enact_run ds s)) = Available)"
proof -
  have a: "strategy_command s \<noteq> ''big_truck_shipment''"
    using strategy_command_range [of s] by auto
  with enact_strategy_enacted [of d s "''big_truck_shipment''" ob]
  have b: "fst (enact_strategy d s) \<noteq> Inr (Enacted ''big_truck_shipment'' ob)" by auto
  have c: "rule_big_truck_shipment s \<longrightarrow> rule_small_truck_shipment s"
    by (simp add: rule_big_truck_shipment_def rule_small_truck_shipment_def)
  from a b c big_truck_enact_run [of s ds] show ?thesis by blast
qed

theorem strategy_never_dispatches_big_truck_witness:
  "t_state (big_truck fresh_low) = Available \<and>
   strategy_command fresh_low \<noteq> ''big_truck_shipment'' \<and>
   t_state (big_truck (enact_run [full_full, full_full, full_full, full_full] fresh_low)) = Available"
proof -
  have "t_state (big_truck fresh_low) = Available"
    by (simp add: fresh_low_def Truck_init_def)
  with strategy_never_dispatches_big_truck
         [where s = fresh_low and ds = "[full_full, full_full, full_full, full_full]"]
  show ?thesis by blast
qed

section \<open>A delivery the client refuses\<close>


























section \<open>Properties of the commands of the System\<close>










end
